theory Spec2Isabelle
  imports Complex_Main "HOL-Library.AList"
begin

section \<open>Python strings\<close>

text \<open>
  A Python \<open>str\<close> is a \<open>string\<close> (a list of characters). The functions below are the
  string operations \<open>simulation.py\<close> uses: \<open>sub in s\<close>, \<open>s.find(sub)\<close>, \<open>s[a:b]\<close>,
  \<open>s.replace(old, new)\<close> and \<open>str(n)\<close> of an integer.
\<close>

fun startswith :: "'a list \<Rightarrow> 'a list \<Rightarrow> bool" where
  "startswith s [] = True"
| "startswith [] (p # ps) = False"
| "startswith (c # cs) (p # ps) = (c = p \<and> startswith cs ps)"

text \<open>\<open>contains s sub\<close> is Python's \<open>sub in s\<close>: \<open>sub\<close> occurs in \<open>s\<close> as a substring.\<close>

fun contains :: "'a list \<Rightarrow> 'a list \<Rightarrow> bool" where
  "contains [] sub = (sub = [])"
| "contains (c # cs) sub = (startswith (c # cs) sub \<or> contains cs sub)"

text \<open>\<open>s.find(sub)\<close>: the lowest index where \<open>sub\<close> starts in \<open>s\<close>, or \<open>-1\<close>.\<close>

fun find_str :: "'a list \<Rightarrow> 'a list \<Rightarrow> int" where
  "find_str [] sub = (if sub = [] then 0 else - 1)"
| "find_str (c # cs) sub =
     (if startswith (c # cs) sub then 0
      else (let r = find_str cs sub in if r < 0 then - 1 else r + 1))"

text \<open>
  \<open>s[a:b]\<close> with Python's rules: a negative index counts from the end, and both indices
  are clamped to \<open>0 .. len(s)\<close>.
\<close>

definition slice_index :: "nat \<Rightarrow> int \<Rightarrow> nat" where
  "slice_index n i = (if i < 0 then nat (int n + i) else min n (nat i))"

definition slice :: "'a list \<Rightarrow> int \<Rightarrow> int \<Rightarrow> 'a list" where
  "slice s a b =
     (let start = slice_index (length s) a; stop = slice_index (length s) b
      in take (stop - start) (drop start s))"

text \<open>
  \<open>s.replace(old, new)\<close>: every non-overlapping occurrence of \<open>old\<close>, from the left. The
  fuel argument bounds the scan by the length of \<open>s\<close>; with \<open>old\<close> empty Python inserts
  \<open>new\<close> around every character.
\<close>

fun replace_from :: "nat \<Rightarrow> string \<Rightarrow> string \<Rightarrow> string \<Rightarrow> string" where
  "replace_from 0 s old new = s"
| "replace_from (Suc k) [] old new = []"
| "replace_from (Suc k) (c # cs) old new =
     (if startswith (c # cs) old
      then new @ replace_from k (drop (length old) (c # cs)) old new
      else c # replace_from k cs old new)"

definition replace :: "string \<Rightarrow> string \<Rightarrow> string \<Rightarrow> string" where
  "replace s old new =
     (if old = [] then new @ concat (map (\<lambda>c. c # new) s)
      else replace_from (length s) s old new)"

definition digit_char :: "nat \<Rightarrow> char" where
  "digit_char d = char_of (48 + d)"

function str_nat :: "nat \<Rightarrow> string" where
  "str_nat n = (if n < 10 then [digit_char n] else str_nat (n div 10) @ [digit_char (n mod 10)])"
  by pat_completeness auto
termination
  by (relation "measure id") auto

declare str_nat.simps [simp del]

definition str_int :: "int \<Rightarrow> string" where
  "str_int i = (if i < 0 then CHR ''-'' # str_nat (nat (- i)) else str_nat (nat i))"

section \<open>Paths, the filesystem and the working directory\<close>

text \<open>
  A \<open>pathlib.Path\<close> is absolute or relative; its parts are plain names (the code only
  ever joins a path with one literal file name). The filesystem maps an absolute path to
  a regular file with its text or to a directory; it is kept as an association list so
  that a directory can be listed. The root directory \<open>[]\<close> always exists. The process
  state the code touches is the filesystem and the current working directory.
\<close>

datatype pypath = Abs "string list" | Rel "string list"

fun joinpath :: "pypath \<Rightarrow> string \<Rightarrow> pypath" where
  "joinpath (Abs ps) name = Abs (ps @ [name])"
| "joinpath (Rel ps) name = Rel (ps @ [name])"

fun resolve :: "string list \<Rightarrow> pypath \<Rightarrow> string list" where
  "resolve wd (Abs ps) = ps"
| "resolve wd (Rel ps) = wd @ ps"

datatype node = File string | Dir

type_synonym filesystem = "(string list \<times> node) list"

record world =
  files :: filesystem
  cwd :: "string list"

definition lookup :: "filesystem \<Rightarrow> string list \<Rightarrow> node option" where
  "lookup fs p = (if p = [] then Some Dir else map_of fs p)"

datatype error =
    FileExistsError
  | FileNotFoundError
  | NotADirectoryError
  | IsADirectoryError
  | SameFileError
  | TypeError
  | KeyError string
  | FileNotFoundError_mesa "string set"
  | ValueError_mesa "string set"
  | External string

text \<open>
  \<open>FileNotFoundError_mesa\<close> and \<open>ValueError_mesa\<close> are the two exceptions
  \<open>build_solps_case\<close> raises itself (a \<open>FileNotFoundError\<close> and a \<open>ValueError\<close> whose
  message prints a set of parameter names); the others without an argument are raised by
  the operating system calls and by \<open>str.replace\<close>. \<open>External\<close> is an exception raised
  by code outside \<open>simulation.py\<close>.
\<close>

definition isfile :: "world \<Rightarrow> pypath \<Rightarrow> bool" where
  "isfile w p = (case lookup (files w) (resolve (cwd w) p) of Some (File c) \<Rightarrow> True | _ \<Rightarrow> False)"

definition listdir :: "world \<Rightarrow> pypath \<Rightarrow> error + string list" where
  "listdir w p =
     (let d = resolve (cwd w) p
      in case lookup (files w) d of
           None \<Rightarrow> Inl FileNotFoundError
         | Some (File c) \<Rightarrow> Inl NotADirectoryError
         | Some Dir \<Rightarrow>
             Inr (remdups (map last (filter (\<lambda>q. q \<noteq> [] \<and> butlast q = d) (map fst (files w))))))"

definition os_remove :: "world \<Rightarrow> pypath \<Rightarrow> error + world" where
  "os_remove w p =
     (let q = resolve (cwd w) p
      in case lookup (files w) q of
           None \<Rightarrow> Inl FileNotFoundError
         | Some Dir \<Rightarrow> Inl IsADirectoryError
         | Some (File c) \<Rightarrow> Inr (w\<lparr>files := AList.delete q (files w)\<rparr>))"

section \<open>The run handle: class SolpsRun\<close>

text \<open>
  A value of the parameter dictionary is a string or a number; the code never computes
  with the numbers, it only hands them on.
\<close>

datatype pyval = PyStr string | PyNum real

record SolpsRun =
  parameters :: "(string \<times> pyval) list"
  run_number :: int
  directory :: pypath
  launch_time :: real
  run_id :: string
  timeout_hours :: int

text \<open>
  \<open>status\<close>: \<open>job_queue\<close> is the standard output of \<open>squeue -u <user>\<close> and \<open>now\<close> the
  value of \<open>time()\<close>; Python's floats are read as real numbers. The four results are
  the strings the method returns.
\<close>

definition status :: "SolpsRun \<Rightarrow> string \<Rightarrow> real \<Rightarrow> world \<Rightarrow> string" where
  "status self job_queue now w =
     (if \<not> contains job_queue (run_id self) then
        (let balance_created = isfile w (joinpath (directory self) ''balance.nc'')
         in if balance_created then ''complete'' else ''crashed'')
      else if now - launch_time self > real_of_int (timeout_hours self) * 3600 then ''timed-out''
      else ''running'')"

text \<open>
  The words of the specification, for comparison with the code: the job id is listed in
  the queue, that is, it is one of the fields of the queue text (the pieces between
  white space, as \<open>str.split()\<close> cuts them).
\<close>

definition is_space :: "char \<Rightarrow> bool" where
  "is_space c =
     (c = CHR '' '' \<or> c = CHR 0x09 \<or> c = CHR 0x0A \<or> c = CHR 0x0B \<or> c = CHR 0x0C \<or> c = CHR 0x0D)"

fun fields_from :: "string \<Rightarrow> string \<Rightarrow> string list" where
  "fields_from acc [] = (if acc = [] then [] else [acc])"
| "fields_from acc (c # cs) =
     (if is_space c then (if acc = [] then fields_from [] cs else acc # fields_from [] cs)
      else fields_from (acc @ [c]) cs)"

definition job_listed :: "string \<Rightarrow> string \<Rightarrow> bool" where
  "job_listed job_queue job_id = (job_id \<in> set (fields_from [] job_queue))"

definition allowed_files :: "string list" where
  "allowed_files =
     [''balance.nc'', ''input.dat'', ''b2.neutrals.parameters'',
      ''b2.boundary.parameters'', ''b2.numerics.parameters'',
      ''b2.transport.parameters'', ''b2.transport.inputfile'',
      ''b2mn.dat'']"

fun remove_each :: "world \<Rightarrow> pypath list \<Rightarrow> (error + unit) \<times> world" where
  "remove_each w [] = (Inr (), w)"
| "remove_each w (p # ps) =
     (case os_remove w p of
        Inl e \<Rightarrow> (Inl e, w)
      | Inr w' \<Rightarrow> remove_each w' ps)"

definition cleanup :: "SolpsRun \<Rightarrow> world \<Rightarrow> (error + unit) \<times> world" where
  "cleanup self w =
     (case listdir w (directory self) of
        Inl e \<Rightarrow> (Inl e, w)
      | Inr names \<Rightarrow>
          (let output_files = filter (\<lambda>f. isfile w (joinpath (directory self) f)) names;
               deletions = filter (\<lambda>f. f \<notin> set allowed_files) output_files
           in remove_each w (map (joinpath (directory self)) deletions)))"

text \<open>
  \<open>get_results\<close>: the class \<open>SolpsInterface\<close> belongs to the external package \<open>sims\<close>;
  its constructor is a parameter of the model. It receives the path and the state of
  the process and returns a handle or raises.
\<close>

definition get_results ::
  "(pypath \<Rightarrow> world \<Rightarrow> error + 'h) \<Rightarrow> SolpsRun \<Rightarrow> world \<Rightarrow> error + 'h" where
  "get_results SolpsInterface self w =
     (let results_path = joinpath (directory self) ''balance.nc''
      in SolpsInterface results_path w)"

section \<open>File operations used by the case builder\<close>

definition mkdir :: "world \<Rightarrow> pypath \<Rightarrow> error + world" where
  "mkdir w p =
     (let q = resolve (cwd w) p
      in if lookup (files w) q \<noteq> None then Inl FileExistsError
         else case lookup (files w) (butlast q) of
                None \<Rightarrow> Inl FileNotFoundError
              | Some (File c) \<Rightarrow> Inl NotADirectoryError
              | Some Dir \<Rightarrow> Inr (w\<lparr>files := AList.update q Dir (files w)\<rparr>))"

text \<open>Opening the absolute path \<open>q\<close> for writing and storing \<open>text\<close> in it.\<close>

definition write_at :: "world \<Rightarrow> string list \<Rightarrow> string \<Rightarrow> error + world" where
  "write_at w q text =
     (case lookup (files w) q of
        Some Dir \<Rightarrow> Inl IsADirectoryError
      | _ \<Rightarrow>
          (case lookup (files w) (butlast q) of
             None \<Rightarrow> Inl FileNotFoundError
           | Some (File c) \<Rightarrow> Inl NotADirectoryError
           | Some Dir \<Rightarrow> Inr (w\<lparr>files := AList.update q (File text) (files w)\<rparr>)))"

definition write_text :: "world \<Rightarrow> pypath \<Rightarrow> string \<Rightarrow> error + world" where
  "write_text w p text = write_at w (resolve (cwd w) p) text"

definition read_text :: "world \<Rightarrow> pypath \<Rightarrow> error + string" where
  "read_text w p =
     (case lookup (files w) (resolve (cwd w) p) of
        None \<Rightarrow> Inl FileNotFoundError
      | Some Dir \<Rightarrow> Inl IsADirectoryError
      | Some (File c) \<Rightarrow> Inr c)"

text \<open>
  \<open>shutil.copy(src, dst)\<close>: a destination that is a directory receives the file under
  the source's base name; copying a file onto itself is refused; then the source is
  opened for reading and the destination for writing.
\<close>

definition copy :: "world \<Rightarrow> pypath \<Rightarrow> pypath \<Rightarrow> error + world" where
  "copy w src dst =
     (let s = resolve (cwd w) src;
          d0 = resolve (cwd w) dst;
          d = (case lookup (files w) d0 of
                 Some Dir \<Rightarrow> (if s = [] then d0 else d0 @ [last s])
               | _ \<Rightarrow> d0)
      in if s = d then Inl SameFileError
         else case lookup (files w) s of
                None \<Rightarrow> Inl FileNotFoundError
              | Some Dir \<Rightarrow> Inl IsADirectoryError
              | Some (File c) \<Rightarrow> write_at w d c)"

text \<open>
  Iterating over a file opened in text mode: \<open>\r\n\<close> and \<open>\r\<close> are read as \<open>\n\<close>, and
  every line keeps its final \<open>\n\<close> (the last line has none if the file does not end
  with one).
\<close>

fun universal_newlines :: "string \<Rightarrow> string" where
  "universal_newlines [] = []"
| "universal_newlines [c] = (if c = CHR 0x0D then [CHR 0x0A] else [c])"
| "universal_newlines (c # d # cs) =
     (if c = CHR 0x0D \<and> d = CHR 0x0A then CHR 0x0A # universal_newlines cs
      else if c = CHR 0x0D then CHR 0x0A # universal_newlines (d # cs)
      else c # universal_newlines (d # cs))"

fun lines_from :: "string \<Rightarrow> string \<Rightarrow> string list" where
  "lines_from acc [] = (if acc = [] then [] else [acc])"
| "lines_from acc (c # cs) =
     (if c = CHR 0x0A then (acc @ [c]) # lines_from [] cs else lines_from (acc @ [c]) cs)"

definition file_lines :: "string \<Rightarrow> string list" where
  "file_lines text = lines_from [] (universal_newlines text)"

section \<open>The case builder: build_solps_case\<close>

definition input_files :: "string list" where
  "input_files =
     [''input.dat'', ''fort.1'', ''fort.13'', ''b2.neutrals.parameters'',
      ''b2.boundary.parameters'', ''b2.numerics.parameters'',
      ''b2.transport.parameters'', ''b2mn.dat'']"

text \<open>The loop of lines 182--184: every input file present in the reference directory is copied.\<close>

fun copy_inputs :: "world \<Rightarrow> pypath \<Rightarrow> pypath \<Rightarrow> string list \<Rightarrow> (error + unit) \<times> world" where
  "copy_inputs w reference_directory case_directory [] = (Inr (), w)"
| "copy_inputs w reference_directory case_directory (input # rest) =
     (if isfile w (joinpath reference_directory input) then
        (case copy w (joinpath reference_directory input) (joinpath case_directory input) of
           Inl e \<Rightarrow> (Inl e, w)
         | Inr w' \<Rightarrow> copy_inputs w' reference_directory case_directory rest)
      else copy_inputs w reference_directory case_directory rest)"

definition placeholder :: "string \<Rightarrow> string" where
  "placeholder p = ''{'' @ p @ ''}''"

text \<open>\<open>line.replace(old, new)\<close> with \<open>new\<close> taken from the dictionary: a \<open>TypeError\<close> unless it is a string.\<close>

fun str_replace :: "string \<Rightarrow> string \<Rightarrow> pyval \<Rightarrow> error + string" where
  "str_replace line old (PyStr new) = Inr (replace line old new)"
| "str_replace line old (PyNum x) = Inl TypeError"

text \<open>
  The loop \<open>for p in optional_params\<close> on one line (lines 208--212). The string that
  \<open>line.replace\<close> returns is not assigned to anything: the line stays as it was read.
\<close>

fun scan_params ::
  "(string \<times> pyval) list \<Rightarrow> string \<Rightarrow> string set \<Rightarrow> string list \<Rightarrow> error + string set" where
  "scan_params parameter_dictionary line written_params [] = Inr written_params"
| "scan_params parameter_dictionary line written_params (p # ps) =
     (if contains line (placeholder p) then
        (case map_of parameter_dictionary p of
           None \<Rightarrow> Inl (KeyError p)
         | Some val_string \<Rightarrow>
             (case str_replace line (placeholder p) val_string of
                Inl e \<Rightarrow> Inl e
              | Inr discarded \<Rightarrow>
                  scan_params parameter_dictionary line (insert p written_params) ps))
      else scan_params parameter_dictionary line written_params ps)"

text \<open>The loop \<open>for line in f\<close> (lines 207--213).\<close>

fun scan_lines ::
  "(string \<times> pyval) list \<Rightarrow> string list \<Rightarrow> string set \<Rightarrow> string list \<Rightarrow> string list
     \<Rightarrow> error + string list \<times> string set" where
  "scan_lines parameter_dictionary optional_params written_params output [] =
     Inr (output, written_params)"
| "scan_lines parameter_dictionary optional_params written_params output (line # rest) =
     (case scan_params parameter_dictionary line written_params optional_params of
        Inl e \<Rightarrow> Inl e
      | Inr written' \<Rightarrow>
          scan_lines parameter_dictionary optional_params written' (output @ [line]) rest)"

text \<open>The loop \<open>for mif in mesa_input_files\<close> (lines 204--217).\<close>

fun process_templates ::
  "world \<Rightarrow> pypath \<Rightarrow> pypath \<Rightarrow> (string \<times> pyval) list \<Rightarrow> string list \<Rightarrow> string set
     \<Rightarrow> string list \<Rightarrow> (error + string set) \<times> world" where
  "process_templates w reference_directory case_directory parameter_dictionary optional_params
     written_params [] = (Inr written_params, w)"
| "process_templates w reference_directory case_directory parameter_dictionary optional_params
     written_params (mif # rest) =
     (case read_text w (joinpath reference_directory mif) of
        Inl e \<Rightarrow> (Inl e, w)
      | Inr text \<Rightarrow>
          (case scan_lines parameter_dictionary optional_params written_params [] (file_lines text) of
             Inl e \<Rightarrow> (Inl e, w)
           | Inr (output, written') \<Rightarrow>
               (case write_text w (joinpath case_directory mif)
                       (concat (map (\<lambda>item. item @ [CHR 0x0A]) output)) of
                  Inl e \<Rightarrow> (Inl e, w)
                | Inr w' \<Rightarrow>
                    process_templates w' reference_directory case_directory parameter_dictionary
                      optional_params written' rest)))"

text \<open>
  \<open>required\<close> is the set \<open>required_parameters\<close> of the module \<open>parameters.py\<close>. The
  optional parameters are a Python set; the model walks them in the order of the
  dictionary's keys.
\<close>

definition build_solps_case ::
  "string set \<Rightarrow> pypath \<Rightarrow> pypath \<Rightarrow> (string \<times> pyval) list \<Rightarrow> world \<Rightarrow> (error + unit) \<times> world" where
  "build_solps_case required reference_directory case_directory parameter_dictionary w =
     (case mkdir w case_directory of
        Inl e \<Rightarrow> (Inl e, w)
      | Inr w1 \<Rightarrow>
     (case copy w1 (joinpath reference_directory ''b2fstate'') (joinpath case_directory ''b2fstati'') of
        Inl e \<Rightarrow> (Inl e, w1)
      | Inr w2 \<Rightarrow>
     (case copy_inputs w2 reference_directory case_directory input_files of
        (Inl e, w3) \<Rightarrow> (Inl e, w3)
      | (Inr u, w3) \<Rightarrow>
          (let optional_params =
                 filter (\<lambda>k. k \<notin> required) (remdups (map fst parameter_dictionary));
               written_params = {};
               mesa_input_files =
                 filter (\<lambda>f. isfile w3 (joinpath reference_directory f))
                   (map (\<lambda>f. f @ ''.mesa'') input_files)
           in if length optional_params \<noteq> 0 then
                if length mesa_input_files = 0 then
                  (Inl (FileNotFoundError_mesa (set optional_params)), w3)
                else
                  (case process_templates w3 reference_directory case_directory
                          parameter_dictionary optional_params written_params mesa_input_files of
                     (Inl e, w4) \<Rightarrow> (Inl e, w4)
                   | (Inr written, w4) \<Rightarrow>
                       (let unwritten_params = set optional_params - written
                        in if unwritten_params \<noteq> {} then
                             (Inl (ValueError_mesa unwritten_params), w4)
                           else (Inr (), w4)))
              else (Inr (), w3)))))"

text \<open>
  The words of the specification, for comparison with the code: the placeholder of
  parameter \<open>p\<close> occurs in some line of some template file (an input file name with the
  suffix \<open>.mesa\<close>) of the reference directory.
\<close>

definition occurs_in_some_template :: "world \<Rightarrow> pypath \<Rightarrow> string \<Rightarrow> bool" where
  "occurs_in_some_template w reference_directory p =
     list_ex
       (\<lambda>f. case read_text w (joinpath reference_directory (f @ ''.mesa'')) of
              Inl e \<Rightarrow> False
            | Inr content \<Rightarrow> list_ex (\<lambda>line. contains line (placeholder p)) (file_lines content))
       input_files"

section \<open>The launcher: Solps.launch\<close>

record Solps =
  reference_directory :: pypath
  transport_bounds :: "real \<times> real"
  set_div_transport :: bool
  n_proc :: int
  memory :: int
  timeout_hours_cfg :: int

text \<open>
  What \<open>launch\<close> uses from outside \<open>simulation.py\<close>: the parameter-name tables of
  \<open>parameters.py\<close>, the profile functions of \<open>models.py\<close>, the writer of \<open>transport.py\<close>
  (it writes files and leaves the working directory alone) and the shell that runs the
  submission command. The shell sees the command and the state of the process; it
  answers with its standard output, its exit status and the files it left behind.
\<close>

record 'p externals =
  required_parameters :: "string set"
  conductivity_profile :: "string list"
  diffusivity_profile :: "string list"
  profile_radius_axis :: "pyval list \<Rightarrow> real \<times> real \<Rightarrow> error + 'p"
  linear_transport_profile :: "'p \<Rightarrow> pyval list \<Rightarrow> real \<times> real \<Rightarrow> error + 'p"
  write_solps_transport_inputfile ::
    "pypath \<Rightarrow> 'p \<Rightarrow> 'p \<Rightarrow> 'p \<Rightarrow> 'p \<Rightarrow> 'p \<Rightarrow> 'p \<Rightarrow> bool \<Rightarrow> bool \<Rightarrow> bool \<Rightarrow> world \<Rightarrow> error + filesystem"
  run_shell :: "string \<Rightarrow> world \<Rightarrow> string \<times> int \<times> filesystem"

text \<open>\<open>[parameters[k] for k in names]\<close>: a missing key raises \<open>KeyError\<close>.\<close>

fun lookup_all :: "(string \<times> pyval) list \<Rightarrow> string list \<Rightarrow> error + pyval list" where
  "lookup_all d [] = Inr []"
| "lookup_all d (k # ks) =
     (case map_of d k of
        None \<Rightarrow> Inl (KeyError k)
      | Some v \<Rightarrow> (case lookup_all d ks of Inl e \<Rightarrow> Inl e | Inr vs \<Rightarrow> Inr (v # vs)))"

definition chdir :: "world \<Rightarrow> pypath \<Rightarrow> error + world" where
  "chdir w p =
     (let q = resolve (cwd w) p
      in case lookup (files w) q of
           None \<Rightarrow> Inl FileNotFoundError
         | Some (File c) \<Rightarrow> Inl NotADirectoryError
         | Some Dir \<Rightarrow> Inr (w\<lparr>cwd := q\<rparr>))"

text \<open>
  \<open>str(b)\<close> of a \<open>bytes\<close> object is its literal: \<open>b\<close>, a quote, the bytes with the
  quote, the backslash, tab, newline, carriage return and every non-printable byte
  escaped, and the quote again. The quote is \<open>'\<close>, or \<open>"\<close> when the bytes hold a \<open>'\<close>
  and no \<open>"\<close>.
\<close>

definition bytes_quote :: "string \<Rightarrow> char" where
  "bytes_quote b = (if CHR 0x27 \<in> set b \<and> CHR 0x22 \<notin> set b then CHR 0x22 else CHR 0x27)"

definition hex_digit :: "nat \<Rightarrow> char" where
  "hex_digit d = (if d < 10 then char_of (48 + d) else char_of (87 + d))"

definition escape_byte :: "char \<Rightarrow> char \<Rightarrow> string" where
  "escape_byte quote c =
     (if c = quote \<or> c = CHR 0x5C then [CHR 0x5C, c]
      else if c = CHR 0x09 then [CHR 0x5C, CHR ''t'']
      else if c = CHR 0x0A then [CHR 0x5C, CHR ''n'']
      else if c = CHR 0x0D then [CHR 0x5C, CHR ''r'']
      else if (of_char c :: nat) < 32 \<or> (of_char c :: nat) \<ge> 127 then
        [CHR 0x5C, CHR ''x'', hex_digit ((of_char c :: nat) div 16), hex_digit ((of_char c :: nat) mod 16)]
      else [c])"

definition str_bytes :: "string \<Rightarrow> string" where
  "str_bytes b =
     (let quote = bytes_quote b
      in CHR ''b'' # quote # concat (map (escape_byte quote) b) @ [quote])"

text \<open>Lines 147--150: the job number is cut out of the text of the submission output.\<close>

definition findstr :: string where
  "findstr = ''Submitted batch job''"

definition parse_job_id :: "string \<Rightarrow> string" where
  "parse_job_id start_run_output =
     (let tmp = find_str (str_bytes start_run_output) findstr
      in slice (str_bytes start_run_output) (tmp + int (length findstr) + 1) (- 3))"

definition submit_command :: "Solps \<Rightarrow> string" where
  "submit_command self =
     (if n_proc self = 1 then ''itmsubmit''
      else ''itmsubmit -m '' @ [CHR 0x22] @ ''-np '' @ str_int (n_proc self) @ [CHR 0x22]
             @ '' -M '' @ str_int (memory self) @ ''GB'')"

text \<open>
  \<open>launch\<close>; \<open>now\<close> is the value of \<open>time()\<close> at the end of the call. The result pairs
  what the call returns or raises with the state it leaves.
\<close>

definition launch ::
  "'p externals \<Rightarrow> Solps \<Rightarrow> int \<Rightarrow> pypath \<Rightarrow> (string \<times> pyval) list \<Rightarrow> real \<Rightarrow> world
     \<Rightarrow> (error + SolpsRun) \<times> world" where
  "launch ext self run_num simulations_directory params now w =
     (let case_dir = joinpath simulations_directory (''run_'' @ str_int run_num)
      in case build_solps_case (required_parameters ext) (reference_directory self) case_dir params w of
        (Inl e, w1) \<Rightarrow> (Inl e, w1)
      | (Inr u, w1) \<Rightarrow>
     (case lookup_all params (conductivity_profile ext) of
        Inl e \<Rightarrow> (Inl e, w1)
      | Inr chi_params \<Rightarrow>
     (case profile_radius_axis ext chi_params (transport_bounds self) of
        Inl e \<Rightarrow> (Inl e, w1)
      | Inr chi_radius \<Rightarrow>
     (case linear_transport_profile ext chi_radius chi_params (transport_bounds self) of
        Inl e \<Rightarrow> (Inl e, w1)
      | Inr chi \<Rightarrow>
     (case lookup_all params (diffusivity_profile ext) of
        Inl e \<Rightarrow> (Inl e, w1)
      | Inr D_params \<Rightarrow>
     (case profile_radius_axis ext D_params (transport_bounds self) of
        Inl e \<Rightarrow> (Inl e, w1)
      | Inr D_radius \<Rightarrow>
     (case linear_transport_profile ext D_radius D_params (transport_bounds self) of
        Inl e \<Rightarrow> (Inl e, w1)
      | Inr D \<Rightarrow>
     (case write_solps_transport_inputfile ext (joinpath case_dir ''b2.transport.inputfile'')
             D_radius D chi_radius chi chi_radius chi False True (set_div_transport self) w1 of
        Inl e \<Rightarrow> (Inl e, w1)
      | Inr fs2 \<Rightarrow>
     (let w2 = w1\<lparr>files := fs2\<rparr>
      in case chdir w2 case_dir of
        Inl e \<Rightarrow> (Inl e, w2)
      | Inr w3 \<Rightarrow>
     (let command = submit_command self;
          (start_run_output, returncode, fs4) = run_shell ext command w3;
          w4 = w3\<lparr>files := fs4\<rparr>
      in case chdir w4 simulations_directory of
        Inl e \<Rightarrow> (Inl e, w4)
      | Inr w5 \<Rightarrow>
          (let job_id = parse_job_id start_run_output
           in (Inr \<lparr>parameters = params, run_number = run_num, directory = case_dir,
                     launch_time = now, run_id = job_id,
                     timeout_hours = timeout_hours_cfg self\<rparr>, w5))))))))))))"

text \<open>
  The first part of \<open>launch\<close>, lines 109--140, up to and including \<open>os.chdir(case_dir)\<close>.
  It is used to say at which step a call of \<open>launch\<close> failed.
\<close>

definition launch_prepare ::
  "'p externals \<Rightarrow> Solps \<Rightarrow> int \<Rightarrow> pypath \<Rightarrow> (string \<times> pyval) list \<Rightarrow> world
     \<Rightarrow> (error + unit) \<times> world" where
  "launch_prepare ext self run_num simulations_directory params w =
     (let case_dir = joinpath simulations_directory (''run_'' @ str_int run_num)
      in case build_solps_case (required_parameters ext) (reference_directory self) case_dir params w of
        (Inl e, w1) \<Rightarrow> (Inl e, w1)
      | (Inr u, w1) \<Rightarrow>
     (case lookup_all params (conductivity_profile ext) of
        Inl e \<Rightarrow> (Inl e, w1)
      | Inr chi_params \<Rightarrow>
     (case profile_radius_axis ext chi_params (transport_bounds self) of
        Inl e \<Rightarrow> (Inl e, w1)
      | Inr chi_radius \<Rightarrow>
     (case linear_transport_profile ext chi_radius chi_params (transport_bounds self) of
        Inl e \<Rightarrow> (Inl e, w1)
      | Inr chi \<Rightarrow>
     (case lookup_all params (diffusivity_profile ext) of
        Inl e \<Rightarrow> (Inl e, w1)
      | Inr D_params \<Rightarrow>
     (case profile_radius_axis ext D_params (transport_bounds self) of
        Inl e \<Rightarrow> (Inl e, w1)
      | Inr D_radius \<Rightarrow>
     (case linear_transport_profile ext D_radius D_params (transport_bounds self) of
        Inl e \<Rightarrow> (Inl e, w1)
      | Inr D \<Rightarrow>
     (case write_solps_transport_inputfile ext (joinpath case_dir ''b2.transport.inputfile'')
             D_radius D chi_radius chi chi_radius chi False True (set_div_transport self) w1 of
        Inl e \<Rightarrow> (Inl e, w1)
      | Inr fs2 \<Rightarrow>
     (let w2 = w1\<lparr>files := fs2\<rparr>
      in case chdir w2 case_dir of
        Inl e \<Rightarrow> (Inl e, w2)
      | Inr w3 \<Rightarrow> (Inr (), w3))))))))))"

section \<open>Example inputs\<close>

text \<open>
  A run handle for job \<open>12345\<close> in \<open>/sim/run_3\<close>, launched at time \<open>0\<close> with a timeout
  of 24 hours, a queue listing that job, and two states of the run directory: one
  holding the result file \<open>balance.nc\<close>, a log file and a sub-directory, one without
  the result file.
\<close>

definition example_run :: SolpsRun where
  "example_run =
     \<lparr>parameters = [], run_number = 3, directory = Abs [''sim'', ''run_3''],
      launch_time = 0, run_id = ''12345'', timeout_hours = 24\<rparr>"

definition example_queue :: string where
  "example_queue = ''JOBID PARTITION NAME'' @ [CHR 0x0A] @ ''12345 batch solps'' @ [CHR 0x0A]"

definition finished_world :: world where
  "finished_world =
     \<lparr>files = [([''sim''], Dir), ([''sim'', ''run_3''], Dir),
               ([''sim'', ''run_3'', ''balance.nc''], File ''result''),
               ([''sim'', ''run_3'', ''b2mn.dat''], File ''input''),
               ([''sim'', ''run_3'', ''run.log''], File ''log''),
               ([''sim'', ''run_3'', ''plots''], Dir)],
      cwd = [''home'']\<rparr>"

definition crashed_world :: world where
  "crashed_world =
     \<lparr>files = [([''sim''], Dir), ([''sim'', ''run_3''], Dir),
               ([''sim'', ''run_3'', ''run.log''], File ''log'')],
      cwd = [''home'']\<rparr>"

text \<open>
  Two states for the case builder: a reference directory \<open>/ref\<close> with the base state,
  the input file \<open>input.dat\<close> and its template \<open>input.dat.mesa\<close> holding the one line
  \<open>x = {foo}\<close>; and the same without the template. The directory \<open>/sim\<close> exists and is
  empty.
\<close>

definition template_world :: world where
  "template_world =
     \<lparr>files = [([''ref''], Dir), ([''ref'', ''b2fstate''], File ''state''),
               ([''ref'', ''input.dat''], File (''x = 0'' @ [CHR 0x0A])),
               ([''ref'', ''input.dat.mesa''], File (''x = {foo}'' @ [CHR 0x0A])),
               ([''sim''], Dir), ([''home''], Dir)],
      cwd = [''home'']\<rparr>"

definition plain_world :: world where
  "plain_world =
     \<lparr>files = [([''ref''], Dir), ([''ref'', ''b2fstate''], File ''state''),
               ([''ref'', ''input.dat''], File (''x = 0'' @ [CHR 0x0A])),
               ([''sim''], Dir), ([''home''], Dir)],
      cwd = [''home'']\<rparr>"

text \<open>
  A state in which the simulations directory is \<open>/home/sim\<close>, so that from the working
  directory \<open>/home\<close> it can be named by the relative path \<open>sim\<close>.
\<close>

definition relative_world :: world where
  "relative_world =
     \<lparr>files = [([''ref''], Dir), ([''ref'', ''b2fstate''], File ''state''),
               ([''home''], Dir), ([''home'', ''sim''], Dir)],
      cwd = [''home'']\<rparr>"

text \<open>
  A launcher configured as in the example input file, with one parameter name per
  profile, profile functions that return a dummy profile, a writer that stores a fixed
  text in the transport input file, and a shell that answers every command with the
  output \<open>out\<close> and the exit status \<open>rc\<close> and leaves the files alone.
\<close>

definition example_externals :: "string \<Rightarrow> int \<Rightarrow> unit externals" where
  "example_externals out rc =
     \<lparr>required_parameters = {''chi'', ''D''},
      conductivity_profile = [''chi''],
      diffusivity_profile = [''D''],
      profile_radius_axis = (\<lambda>ps bounds. Inr ()),
      linear_transport_profile = (\<lambda>radius ps bounds. Inr ()),
      write_solps_transport_inputfile =
        (\<lambda>filename gd vd gce vce gci vci visc no_pflux no_div w.
           case write_text w filename ''profiles'' of Inl e \<Rightarrow> Inl e | Inr w' \<Rightarrow> Inr (files w')),
      run_shell = (\<lambda>command w. (out, rc, files w))\<rparr>"

definition example_solps :: Solps where
  "example_solps =
     \<lparr>reference_directory = Abs [''ref''], transport_bounds = (- 0.25, 0.24),
      set_div_transport = True, n_proc = 36, memory = 20, timeout_hours_cfg = 24\<rparr>"

definition example_parameters :: "(string \<times> pyval) list" where
  "example_parameters = [(''chi'', PyNum 1), (''D'', PyNum 2)]"

section \<open>Properties of the run handle\<close>

subsection \<open>Auxiliary facts\<close>

lemma contains_Nil: "contains s [] = True"
  by (cases s) simp_all

lemma resolve_joinpath: "resolve wd (joinpath p name) = resolve wd p @ [name]"
  by (cases p) simp_all

lemma lookup_delete:
  "q \<noteq> [] \<Longrightarrow> lookup (AList.delete q fs) p = (if p = q then None else lookup fs p)"
  by (simp add: lookup_def delete_conv')

lemma lookup_File_nonempty: "lookup fs q = Some (File c) \<Longrightarrow> q \<noteq> []"
  by (auto simp: lookup_def)

lemma remove_each_spec:
  "distinct (map (resolve (cwd w)) ps) \<Longrightarrow>
   \<forall>p\<in>set ps. \<exists>c. lookup (files w) (resolve (cwd w) p) = Some (File c) \<Longrightarrow>
   \<exists>w'. remove_each w ps = (Inr (), w') \<and> cwd w' = cwd w \<and>
        (\<forall>q. lookup (files w') q =
              (if q \<in> resolve (cwd w) ` set ps then None else lookup (files w) q))"
proof (induction ps arbitrary: w)
  case Nil
  then show ?case by simp
next
  case (Cons p ps)
  let ?q = "resolve (cwd w) p"
  from Cons.prems obtain c where c: "lookup (files w) ?q = Some (File c)" by auto
  then have ne: "?q \<noteq> []" by (rule lookup_File_nonempty)
  let ?w1 = "w\<lparr>files := AList.delete ?q (files w)\<rparr>"
  have rm: "os_remove w p = Inr ?w1"
    using c by (simp add: os_remove_def)
  have d1: "distinct (map (resolve (cwd ?w1)) ps)"
    using Cons.prems(1) by simp
  have f1: "\<forall>p'\<in>set ps. \<exists>c. lookup (files ?w1) (resolve (cwd ?w1) p') = Some (File c)"
  proof
    fix p' assume p': "p' \<in> set ps"
    moreover have "?q \<notin> resolve (cwd w) ` set ps" using Cons.prems(1) by simp
    ultimately have "resolve (cwd w) p' \<noteq> ?q" by (metis imageI)
    moreover from p' Cons.prems(2) obtain c' where
      "lookup (files w) (resolve (cwd w) p') = Some (File c')" by auto
    ultimately show "\<exists>c. lookup (files ?w1) (resolve (cwd ?w1) p') = Some (File c)"
      using ne by (simp add: lookup_delete)
  qed
  from Cons.IH [OF d1 f1] obtain w' where
    w': "remove_each ?w1 ps = (Inr (), w')" "cwd w' = cwd ?w1"
      "\<forall>q. lookup (files w') q =
          (if q \<in> resolve (cwd ?w1) ` set ps then None else lookup (files ?w1) q)"
    by blast
  have "remove_each w (p # ps) = (Inr (), w')"
    using rm w'(1) by simp
  moreover have "cwd w' = cwd w" using w'(2) by simp
  moreover have "\<forall>q. lookup (files w') q =
      (if q \<in> resolve (cwd w) ` set (p # ps) then None else lookup (files w) q)"
    using w'(3) ne by (auto simp: lookup_delete)
  ultimately show ?case by blast
qed

lemma listdir_names:
  "listdir w p = Inr names \<Longrightarrow>
   distinct names \<and> (\<forall>f. f \<in> set names \<longleftrightarrow> resolve (cwd w) p @ [f] \<in> fst ` set (files w))"
proof -
  assume a: "listdir w p = Inr names"
  let ?d = "resolve (cwd w) p"
  from a have n: "names = remdups (map last (filter (\<lambda>q. q \<noteq> [] \<and> butlast q = ?d) (map fst (files w))))"
    by (auto simp: listdir_def Let_def split: option.splits node.splits)
  have "\<And>f. f \<in> set names \<longleftrightarrow> ?d @ [f] \<in> fst ` set (files w)"
  proof
    fix f assume "f \<in> set names"
    then obtain q where q: "q \<in> fst ` set (files w)" "q \<noteq> []" "butlast q = ?d" "last q = f"
      using n by auto
    then have "q = ?d @ [f]" using append_butlast_last_id by metis
    then show "?d @ [f] \<in> fst ` set (files w)" using q(1) by simp
  next
    fix f assume "?d @ [f] \<in> fst ` set (files w)"
    then have "?d @ [f] \<in> set (filter (\<lambda>q. q \<noteq> [] \<and> butlast q = ?d) (map fst (files w)))"
      by simp
    then have "last (?d @ [f]) \<in> set names" unfolding n set_remdups set_map by (rule imageI)
    then show "f \<in> set names" by simp
  qed
  then show ?thesis using n by simp
qed

subsection \<open>status\<close>

lemma startswith_append_self: "startswith (xs @ ys) xs"
  by (induction xs) simp_all

lemma startswith_contains: "startswith s m \<Longrightarrow> contains s m"
  by (cases s; cases m) simp_all

lemma contains_append_right: "contains ys m \<Longrightarrow> contains (xs @ ys) m"
  by (induction xs) simp_all

lemma fields_from_contains:
  "f \<in> set (fields_from acc s) \<Longrightarrow> contains (acc @ s) f"
proof (induction s arbitrary: acc)
  case Nil
  then have "f = acc" by (simp split: if_splits)
  then show ?case using startswith_contains [OF startswith_append_self [of acc "[]"]] by simp
next
  case (Cons c cs)
  show ?case
  proof (cases "is_space c")
    case False
    with Cons.prems have "f \<in> set (fields_from (acc @ [c]) cs)" by simp
    from Cons.IH [OF this] show ?thesis by simp
  next
    case True
    with Cons.prems have "f = acc \<or> f \<in> set (fields_from [] cs)"
      by (auto split: if_splits)
    then show ?thesis
    proof
      assume "f = acc"
      then show ?thesis using startswith_contains [OF startswith_append_self] by blast
    next
      assume "f \<in> set (fields_from [] cs)"
      from Cons.IH [OF this] have "contains cs f" by simp
      then have "contains ((acc @ [c]) @ cs) f" by (rule contains_append_right)
      then show ?thesis by simp
    qed
  qed
qed

lemma job_listed_contains: "job_listed job_queue job_id \<Longrightarrow> contains job_queue job_id"
  unfolding job_listed_def using fields_from_contains [of job_id "[]" job_queue] by simp

text \<open>
  Claim C3, as the code has it. \<open>status\<close> decides whether the job is still queued by
  looking for \<open>run_id\<close> as a substring of the queue text. It returns \<open>complete\<close> when
  \<open>run_id\<close> occurs nowhere in the queue text and \<open>balance.nc\<close> is a file of the run
  directory, \<open>crashed\<close> when it occurs nowhere and the file is missing, \<open>timed-out\<close>
  when it occurs and the time since launch exceeds \<open>timeout_hours\<close> hours
  (\<open>timeout_hours * 3600\<close> seconds), and \<open>running\<close> otherwise. A job id that is listed
  in the queue occurs in its text, so a listed job is never reported \<open>complete\<close> or
  \<open>crashed\<close>.
\<close>

theorem status_four_cases:
  "(\<not> contains job_queue (run_id self) \<and> isfile w (joinpath (directory self) ''balance.nc'')
      \<longrightarrow> status self job_queue now w = ''complete'') \<and>
   (\<not> contains job_queue (run_id self) \<and> \<not> isfile w (joinpath (directory self) ''balance.nc'')
      \<longrightarrow> status self job_queue now w = ''crashed'') \<and>
   (contains job_queue (run_id self) \<and> now - launch_time self > real_of_int (timeout_hours self) * 3600
      \<longrightarrow> status self job_queue now w = ''timed-out'') \<and>
   (contains job_queue (run_id self) \<and> \<not> now - launch_time self > real_of_int (timeout_hours self) * 3600
      \<longrightarrow> status self job_queue now w = ''running'') \<and>
   (job_listed job_queue (run_id self) \<longrightarrow> contains job_queue (run_id self))"
  by (simp add: status_def job_listed_contains)

theorem status_four_cases_witness:
  "status example_run [] 100 finished_world = ''complete'' \<and>
   status example_run [] 100 crashed_world = ''crashed'' \<and>
   status example_run example_queue 86401 finished_world = ''timed-out'' \<and>
   status example_run example_queue 86400 finished_world = ''running'' \<and>
   job_listed example_queue (run_id example_run) \<and> contains example_queue (run_id example_run)"
proof -
  have l: "job_listed example_queue (run_id example_run)"
    by (simp add: job_listed_def example_queue_def example_run_def is_space_def)
  from status_four_cases [of "[]" example_run finished_world 100]
    status_four_cases [of "[]" example_run crashed_world 100]
    status_four_cases [of example_queue example_run finished_world 86401]
    status_four_cases [of example_queue example_run finished_world 86400] l
  show ?thesis
    by (simp add: example_run_def example_queue_def finished_world_def crashed_world_def
        isfile_def lookup_def)
qed

text \<open>
  The converse fails: a job id that is not listed can still occur in the text. The
  queue lists only job \<open>12345\<close>; the handle with \<open>run_id = 123\<close> has left the queue and
  its \<open>balance.nc\<close> exists, yet \<open>status\<close> answers \<open>running\<close>.
\<close>

theorem status_unlisted_job_counterexample:
  "\<not> job_listed example_queue ''123'' \<and>
   isfile finished_world (joinpath (directory (example_run\<lparr>run_id := ''123''\<rparr>)) ''balance.nc'') \<and>
   status (example_run\<lparr>run_id := ''123''\<rparr>) example_queue 100 finished_world = ''running''"
  by (simp add: job_listed_def example_queue_def example_run_def is_space_def status_def
      finished_world_def isfile_def lookup_def)

text \<open>
  Claim C10. A handle whose \<open>run_id\<close> is the empty string is never \<open>complete\<close> or
  \<open>crashed\<close>: the empty string occurs in every queue text, so the handle is \<open>running\<close>
  until the time since launch exceeds the timeout and \<open>timed-out\<close> after that.
\<close>

theorem status_empty_run_id:
  assumes "run_id self = []"
  shows "status self job_queue now w =
           (if now - launch_time self > real_of_int (timeout_hours self) * 3600
            then ''timed-out'' else ''running'')
         \<and> status self job_queue now w \<noteq> ''complete''
         \<and> status self job_queue now w \<noteq> ''crashed''"
  using assms by (simp add: status_def contains_Nil)

theorem status_empty_run_id_witness:
  "run_id (example_run\<lparr>run_id := []\<rparr>) = [] \<and>
   status (example_run\<lparr>run_id := []\<rparr>) [] 100 finished_world = ''running'' \<and>
   status (example_run\<lparr>run_id := []\<rparr>) [] 86401 finished_world = ''timed-out''"
  using status_empty_run_id [of "example_run\<lparr>run_id := []\<rparr>" "[]" 100 finished_world]
    status_empty_run_id [of "example_run\<lparr>run_id := []\<rparr>" "[]" 86401 finished_world]
  by (simp add: example_run_def)

subsection \<open>get_results\<close>

text \<open>
  \<open>get_results\<close> hands exactly the path \<open>directory/balance.nc\<close> to the constructor
  \<open>SolpsInterface\<close> and returns what the constructor returns, or raises what it raises.
  Whether a missing file is an error is decided by that constructor, which belongs to
  the external package \<open>sims\<close>.
\<close>

lemma get_results_hands_path_on:
  "get_results SolpsInterface self w = SolpsInterface (joinpath (directory self) ''balance.nc'') w"
  by (simp add: get_results_def)

subsection \<open>cleanup\<close>

text \<open>
  Claim C6. In a run directory that exists, \<open>cleanup\<close> succeeds, and afterwards a path
  is gone exactly if it was a regular file directly in the run directory whose name is
  not on the allow-list; every other path (the allow-listed files, the sub-directories,
  the run directory itself and everything outside it) is as before, and so is the
  working directory.
\<close>

theorem cleanup_removes_exactly:
  assumes "lookup (files w) (resolve (cwd w) (directory self)) = Some Dir"
  shows "\<exists>w'. cleanup self w = (Inr (), w') \<and> cwd w' = cwd w \<and>
           (\<forall>p. lookup (files w') p =
              (if (\<exists>f c. p = resolve (cwd w) (directory self) @ [f] \<and> f \<notin> set allowed_files
                        \<and> lookup (files w) p = Some (File c))
               then None else lookup (files w) p))"
proof -
  let ?d = "resolve (cwd w) (directory self)"
  obtain names where names: "listdir w (directory self) = Inr names"
    using assms by (simp add: listdir_def)
  note nm = listdir_names [OF names]
  let ?dels = "filter (\<lambda>f. f \<notin> set allowed_files)
                 (filter (\<lambda>f. isfile w (joinpath (directory self) f)) names)"
  let ?ps = "map (joinpath (directory self)) ?dels"
  have cl: "cleanup self w = remove_each w ?ps"
    using names by (simp add: cleanup_def)
  have res: "map (resolve (cwd w)) ?ps = map (\<lambda>f. ?d @ [f]) ?dels"
    by (simp add: resolve_joinpath comp_def)
  have dist: "distinct (map (resolve (cwd w)) ?ps)"
    unfolding res using nm by (simp add: distinct_map inj_on_def)
  have fl: "\<forall>p\<in>set ?ps. \<exists>c. lookup (files w) (resolve (cwd w) p) = Some (File c)"
    by (auto simp: isfile_def split: option.splits node.splits)
  from remove_each_spec [OF dist fl] obtain w' where
    w': "remove_each w ?ps = (Inr (), w')" "cwd w' = cwd w"
      "\<forall>q. lookup (files w') q =
          (if q \<in> resolve (cwd w) ` set ?ps then None else lookup (files w) q)"
    by blast
  have mem: "\<And>q. q \<in> resolve (cwd w) ` set ?ps \<longleftrightarrow>
      (\<exists>f c. q = ?d @ [f] \<and> f \<notin> set allowed_files \<and> lookup (files w) q = Some (File c))"
  proof
    fix q assume "q \<in> resolve (cwd w) ` set ?ps"
    then obtain f where f: "q = ?d @ [f]" "f \<in> set ?dels"
      by (auto simp: resolve_joinpath)
    then have "f \<notin> set allowed_files" "isfile w (joinpath (directory self) f)" by auto
    then show "\<exists>f c. q = ?d @ [f] \<and> f \<notin> set allowed_files \<and> lookup (files w) q = Some (File c)"
      using f(1) by (auto simp: isfile_def resolve_joinpath split: option.splits node.splits)
  next
    fix q assume "\<exists>f c. q = ?d @ [f] \<and> f \<notin> set allowed_files \<and> lookup (files w) q = Some (File c)"
    then obtain f c where f: "q = ?d @ [f]" "f \<notin> set allowed_files" "lookup (files w) q = Some (File c)"
      by blast
    from f(1,3) have "map_of (files w) (?d @ [f]) = Some (File c)" by (simp add: lookup_def)
    then have "?d @ [f] \<in> fst ` set (files w)" by (meson domI domIff map_of_eq_None_iff)
    then have "f \<in> set names" using nm by simp
    moreover have "isfile w (joinpath (directory self) f)"
      using f by (simp add: isfile_def resolve_joinpath)
    ultimately have "f \<in> set ?dels" using f(2) by simp
    then have "resolve (cwd w) (joinpath (directory self) f) \<in> resolve (cwd w) ` set ?ps"
      by (intro imageI) simp
    then show "q \<in> resolve (cwd w) ` set ?ps" using f(1) by (simp add: resolve_joinpath)
  qed
  show ?thesis
    using cl w' mem by auto
qed

theorem cleanup_removes_exactly_witness:
  "lookup (files finished_world) (resolve (cwd finished_world) (directory example_run)) = Some Dir \<and>
   (\<exists>w'. cleanup example_run finished_world = (Inr (), w') \<and>
      lookup (files w') [''sim'', ''run_3'', ''run.log''] = None \<and>
      lookup (files w') [''sim'', ''run_3'', ''balance.nc''] = Some (File ''result'') \<and>
      lookup (files w') [''sim'', ''run_3'', ''b2mn.dat''] = Some (File ''input'') \<and>
      lookup (files w') [''sim'', ''run_3'', ''plots''] = Some Dir \<and>
      lookup (files w') [''sim'', ''run_3''] = Some Dir)"
proof -
  have h: "lookup (files finished_world) (resolve (cwd finished_world) (directory example_run)) = Some Dir"
    by (simp add: finished_world_def example_run_def lookup_def)
  from cleanup_removes_exactly [OF h] obtain w' where
    w': "cleanup example_run finished_world = (Inr (), w')"
      "\<forall>p. lookup (files w') p =
         (if (\<exists>f c. p = resolve (cwd finished_world) (directory example_run) @ [f]
                  \<and> f \<notin> set allowed_files \<and> lookup (files finished_world) p = Some (File c))
          then None else lookup (files finished_world) p)"
    by blast
  have "lookup (files w') [''sim'', ''run_3'', ''run.log''] = None"
    using w'(2) [rule_format, of "[''sim'', ''run_3'', ''run.log'']"]
    by (simp add: example_run_def finished_world_def lookup_def allowed_files_def)
  moreover have "lookup (files w') [''sim'', ''run_3'', ''balance.nc''] = Some (File ''result'')"
    using w'(2) [rule_format, of "[''sim'', ''run_3'', ''balance.nc'']"]
    by (simp add: example_run_def finished_world_def lookup_def allowed_files_def)
  moreover have "lookup (files w') [''sim'', ''run_3'', ''b2mn.dat''] = Some (File ''input'')"
    using w'(2) [rule_format, of "[''sim'', ''run_3'', ''b2mn.dat'']"]
    by (simp add: example_run_def finished_world_def lookup_def allowed_files_def)
  moreover have "lookup (files w') [''sim'', ''run_3'', ''plots''] = Some Dir"
    using w'(2) [rule_format, of "[''sim'', ''run_3'', ''plots'']"]
    by (simp add: example_run_def finished_world_def lookup_def allowed_files_def)
  moreover have "lookup (files w') [''sim'', ''run_3''] = Some Dir"
    using w'(2) [rule_format, of "[''sim'', ''run_3'']"]
    by (simp add: example_run_def finished_world_def lookup_def allowed_files_def)
  ultimately show ?thesis using h w'(1) by blast
qed

section \<open>Properties of the case builder\<close>

subsection \<open>What the file operations keep\<close>

lemma lookup_update:
  "q \<noteq> [] \<Longrightarrow> lookup (AList.update q v fs) p = (if p = q then Some v else lookup fs p)"
  by (simp add: lookup_def update_conv')

lemma write_at_Inr:
  assumes "write_at w q text = Inr w'"
  shows "cwd w' = cwd w" and "q \<noteq> []"
    and "files w' = AList.update q (File text) (files w)"
    and "lookup (files w) (butlast q) = Some Dir"
    and "lookup (files w) q \<noteq> Some Dir"
  using assms
  by (auto simp: write_at_def lookup_def split: option.splits node.splits if_splits)

lemma write_at_keeps:
  assumes "write_at w q text = Inr w'"
  shows "lookup (files w') p = (if p = q then Some (File text) else lookup (files w) p)"
  using write_at_Inr [OF assms] by (simp add: lookup_update)

lemma write_at_exists:
  "write_at w q text = Inr w' \<Longrightarrow> lookup (files w) p \<noteq> None \<Longrightarrow> lookup (files w') p \<noteq> None"
  by (simp add: write_at_keeps)

lemma write_at_Dir:
  "write_at w q text = Inr w' \<Longrightarrow> lookup (files w) p = Some Dir \<Longrightarrow> lookup (files w') p = Some Dir"
  using write_at_Inr(5) by (auto simp: write_at_keeps)

lemma copy_Inr:
  assumes "copy w src dst = Inr w'"
  shows "cwd w' = cwd w"
    and "lookup (files w) p \<noteq> None \<Longrightarrow> lookup (files w') p \<noteq> None"
    and "lookup (files w) p = Some Dir \<Longrightarrow> lookup (files w') p = Some Dir"
  using assms
  by (auto simp: copy_def Let_def split: option.splits node.splits if_splits
      dest: write_at_Inr(1) write_at_exists write_at_Dir)

lemma copy_inputs_keeps:
  "copy_inputs w ref cdir names = (r, w') \<Longrightarrow>
   cwd w' = cwd w \<and> (lookup (files w) p \<noteq> None \<longrightarrow> lookup (files w') p \<noteq> None)
   \<and> (lookup (files w) p = Some Dir \<longrightarrow> lookup (files w') p = Some Dir)"
proof (induction names arbitrary: w)
  case Nil
  then show ?case by simp
next
  case (Cons input rest)
  show ?case
  proof (cases "isfile w (joinpath ref input)")
    case False
    with Cons show ?thesis by simp
  next
    case True
    show ?thesis
    proof (cases "copy w (joinpath ref input) (joinpath cdir input)")
      case (Inl e)
      with True Cons.prems show ?thesis by simp
    next
      case (Inr w1)
      with True Cons.prems have "copy_inputs w1 ref cdir rest = (r, w')" by simp
      from Cons.IH [OF this] copy_Inr [OF Inr] show ?thesis by metis
    qed
  qed
qed

lemma write_text_Inr:
  assumes "write_text w p text = Inr w'"
  shows "cwd w' = cwd w"
    and "lookup (files w) q \<noteq> None \<Longrightarrow> lookup (files w') q \<noteq> None"
    and "lookup (files w) q = Some Dir \<Longrightarrow> lookup (files w') q = Some Dir"
    and "q \<noteq> resolve (cwd w) p \<Longrightarrow> lookup (files w') q = lookup (files w) q"
proof -
  from assms have a: "write_at w (resolve (cwd w) p) text = Inr w'" by (simp add: write_text_def)
  show "cwd w' = cwd w" using write_at_Inr(1) [OF a] .
  show "lookup (files w) q \<noteq> None \<Longrightarrow> lookup (files w') q \<noteq> None" using write_at_exists [OF a] .
  show "lookup (files w) q = Some Dir \<Longrightarrow> lookup (files w') q = Some Dir" using write_at_Dir [OF a] .
  show "q \<noteq> resolve (cwd w) p \<Longrightarrow> lookup (files w') q = lookup (files w) q"
    by (simp add: write_at_keeps [OF a])
qed

lemma process_templates_keeps:
  "process_templates w ref cdir params opt written mifs = (r, w') \<Longrightarrow>
   cwd w' = cwd w \<and> (lookup (files w) p \<noteq> None \<longrightarrow> lookup (files w') p \<noteq> None)
   \<and> (lookup (files w) p = Some Dir \<longrightarrow> lookup (files w') p = Some Dir)"
proof (induction mifs arbitrary: w written)
  case Nil
  then show ?case by simp
next
  case (Cons mif rest)
  show ?case
  proof (cases "read_text w (joinpath ref mif)")
    case (Inl e)
    with Cons.prems show ?thesis by simp
  next
    case (Inr content)
    show ?thesis
    proof (cases "scan_lines params opt written [] (file_lines content)")
      case (Inl e)
      with Inr Cons.prems show ?thesis by simp
    next
      case sl: (Inr ow)
      obtain out written' where ow: "ow = (out, written')" by (cases ow)
      show ?thesis
      proof (cases "write_text w (joinpath cdir mif) (concat (map (\<lambda>item. item @ [CHR 0x0A]) out))")
        case (Inl e)
        with Inr sl ow Cons.prems show ?thesis by simp
      next
        case wt: (Inr w1)
        with Inr sl ow Cons.prems
        have "process_templates w1 ref cdir params opt written' rest = (r, w')" by simp
        from Cons.IH [OF this] write_text_Inr(1-3) [OF wt] show ?thesis by metis
      qed
    qed
  qed
qed

lemma mkdir_Inr:
  assumes "mkdir w p = Inr w'"
  shows "cwd w' = cwd w" and "lookup (files w') (resolve (cwd w) p) = Some Dir"
    and "lookup (files w) (resolve (cwd w) p) = None"
    and "lookup (files w) q \<noteq> None \<Longrightarrow> lookup (files w') q \<noteq> None"
    and "lookup (files w) q = Some Dir \<Longrightarrow> lookup (files w') q = Some Dir"
  using assms
  by (auto simp: mkdir_def Let_def lookup_def update_conv' split: option.splits node.splits if_splits)

lemma mkdir_exists:
  "lookup (files w) (resolve (cwd w) p) \<noteq> None \<Longrightarrow> mkdir w p = Inl FileExistsError"
  by (simp add: mkdir_def)

lemma build_exists:
  "lookup (files w) (resolve (cwd w) cdir) \<noteq> None \<Longrightarrow>
   build_solps_case required ref cdir params w = (Inl FileExistsError, w)"
  by (simp add: build_solps_case_def mkdir_exists)

lemma build_keeps:
  assumes "build_solps_case required ref cdir params w = (r, w')"
  shows "cwd w' = cwd w"
    and "mkdir w cdir = Inl e \<Longrightarrow> w' = w \<and> r = Inl e"
    and "mkdir w cdir = Inr w1 \<Longrightarrow> lookup (files w') (resolve (cwd w) cdir) = Some Dir"
proof -
  show "mkdir w cdir = Inl e \<Longrightarrow> w' = w \<and> r = Inl e"
    using assms by (auto simp: build_solps_case_def)
  have *: "cwd w' = cwd w \<and> (\<forall>w1. mkdir w cdir = Inr w1 \<longrightarrow> lookup (files w') (resolve (cwd w) cdir) = Some Dir)"
  proof (cases "mkdir w cdir")
    case (Inl e)
    with assms show ?thesis by (auto simp: build_solps_case_def)
  next
    case mk: (Inr w1)
    note m = mkdir_Inr [OF mk]
    show ?thesis
    proof (cases "copy w1 (joinpath ref ''b2fstate'') (joinpath cdir ''b2fstati'')")
      case (Inl e)
      with mk assms m show ?thesis by (auto simp: build_solps_case_def)
    next
      case cp: (Inr w2)
      note c = copy_Inr [OF cp]
      obtain r3 w3 where ci: "copy_inputs w2 ref cdir input_files = (r3, w3)"
        by (cases "copy_inputs w2 ref cdir input_files")
      note k3 = copy_inputs_keeps [OF ci, of "resolve (cwd w) cdir"]
      have w3: "cwd w3 = cwd w" "lookup (files w3) (resolve (cwd w) cdir) = Some Dir"
        using k3 c(1) c(3) m(1) m(2) by auto
      show ?thesis
      proof (cases r3)
        case (Inl e)
        with mk cp ci assms w3 show ?thesis by (auto simp: build_solps_case_def)
      next
        case (Inr u)
        let ?opt = "filter (\<lambda>k. k \<notin> required) (remdups (map fst params))"
        let ?mifs = "filter (\<lambda>f. isfile w3 (joinpath ref f)) (map (\<lambda>f. f @ ''.mesa'') input_files)"
        obtain r4 w4 where pt: "process_templates w3 ref cdir params ?opt {} ?mifs = (r4, w4)"
          by (cases "process_templates w3 ref cdir params ?opt {} ?mifs")
        note k4 = process_templates_keeps [OF pt, of "resolve (cwd w) cdir"]
        have "w' = w3 \<or> w' = w4"
          using assms mk cp ci Inr pt
          by (auto simp: build_solps_case_def Let_def split: if_splits sum.splits)
        then show ?thesis using w3 k4 by auto
      qed
    qed
  qed
  then show "cwd w' = cwd w" by simp
  from * show "mkdir w cdir = Inr w1 \<Longrightarrow> lookup (files w') (resolve (cwd w) cdir) = Some Dir" by simp
qed


subsection \<open>When the steps of the builder succeed\<close>

lemma read_text_Inr: "read_text w p = Inr c \<longleftrightarrow> lookup (files w) (resolve (cwd w) p) = Some (File c)"
  by (auto simp: read_text_def split: option.splits node.splits)

lemma isfile_iff: "isfile w p \<longleftrightarrow> (\<exists>c. lookup (files w) (resolve (cwd w) p) = Some (File c))"
  by (auto simp: isfile_def split: option.splits node.splits)

lemma copy_into_case:
  assumes "lookup (files w) q = Some Dir"
    and "lookup (files w) (q @ [name]) \<noteq> Some Dir"
    and "isfile w src"
    and "resolve (cwd w) dst = q @ [name]"
    and "resolve (cwd w) src \<noteq> q @ [name]"
  shows "\<exists>w'. copy w src dst = Inr w' \<and> cwd w' = cwd w \<and>
           (\<forall>p. lookup (files w') p =
              (if p = q @ [name] then lookup (files w) (resolve (cwd w) src) else lookup (files w) p))"
proof -
  from assms(3) obtain c where c: "lookup (files w) (resolve (cwd w) src) = Some (File c)"
    by (auto simp: isfile_iff)
  have wa: "write_at w (q @ [name]) c = Inr (w\<lparr>files := AList.update (q @ [name]) (File c) (files w)\<rparr>)"
    using assms(1,2) by (auto simp: write_at_def split: option.splits node.splits)
  have "copy w src dst = write_at w (q @ [name]) c"
    using assms(2,4,5) c by (auto simp: copy_def Let_def split: option.splits node.splits)
  with wa c show ?thesis by (simp add: lookup_update)
qed

lemma copy_inputs_total:
  assumes "resolve (cwd w) cdir = q" and "resolve (cwd w) ref \<noteq> q"
    and "lookup (files w) q = Some Dir"
    and "\<forall>n. lookup (files w) (q @ [n]) \<noteq> Some Dir"
  shows "\<exists>w'. copy_inputs w ref cdir names = (Inr (), w') \<and> cwd w' = cwd w \<and>
           lookup (files w') q = Some Dir \<and>
           (\<forall>n. lookup (files w') (q @ [n]) \<noteq> Some Dir) \<and>
           (\<forall>p. (\<forall>n. p \<noteq> q @ [n]) \<longrightarrow> lookup (files w') p = lookup (files w) p)"
  using assms
proof (induction names arbitrary: w)
  case Nil
  then show ?case by simp
next
  case (Cons input rest)
  show ?case
  proof (cases "isfile w (joinpath ref input)")
    case False
    with Cons.IH [OF Cons.prems] show ?thesis by simp
  next
    case True
    have dst: "resolve (cwd w) (joinpath cdir input) = q @ [input]"
      using Cons.prems(1) by (simp add: resolve_joinpath)
    have src: "resolve (cwd w) (joinpath ref input) \<noteq> q @ [input]"
      using Cons.prems(2) by (simp add: resolve_joinpath)
    from copy_into_case [OF Cons.prems(3) Cons.prems(4) [rule_format] True dst src]
    obtain w1 where w1: "copy w (joinpath ref input) (joinpath cdir input) = Inr w1"
      "cwd w1 = cwd w"
      "\<forall>p. lookup (files w1) p =
          (if p = q @ [input] then lookup (files w) (resolve (cwd w) (joinpath ref input))
           else lookup (files w) p)"
      by blast
    from True obtain c where c: "lookup (files w) (resolve (cwd w) (joinpath ref input)) = Some (File c)"
      by (auto simp: isfile_iff)
    have a1: "resolve (cwd w1) cdir = q" "resolve (cwd w1) ref \<noteq> q"
      using Cons.prems(1,2) w1(2) by simp_all
    have a3: "lookup (files w1) q = Some Dir" using w1(3) Cons.prems(3) by simp
    have a4: "\<forall>n. lookup (files w1) (q @ [n]) \<noteq> Some Dir"
      using w1(3) c Cons.prems(4) by simp
    from Cons.IH [OF a1 a3 a4] obtain w' where
      w': "copy_inputs w1 ref cdir rest = (Inr (), w')" "cwd w' = cwd w1"
        "lookup (files w') q = Some Dir" "\<forall>n. lookup (files w') (q @ [n]) \<noteq> Some Dir"
        "\<forall>p. (\<forall>n. p \<noteq> q @ [n]) \<longrightarrow> lookup (files w') p = lookup (files w1) p"
      by blast
    have "copy_inputs w ref cdir (input # rest) = (Inr (), w')"
      using True w1(1) w'(1) by simp
    moreover have "\<forall>p. (\<forall>n. p \<noteq> q @ [n]) \<longrightarrow> lookup (files w') p = lookup (files w) p"
      using w'(5) w1(3) by simp
    ultimately show ?thesis using w'(2,3,4) w1(2) by auto
  qed
qed

lemma scan_params_total:
  assumes "\<forall>p\<in>set ps. contains line (placeholder p) \<longrightarrow> (\<exists>s. map_of params p = Some (PyStr s))"
  shows "scan_params params line written ps =
           Inr (written \<union> {p \<in> set ps. contains line (placeholder p)})"
  using assms
proof (induction ps arbitrary: written)
  case Nil
  then show ?case by simp
next
  case (Cons p ps)
  have rest: "\<forall>p\<in>set ps. contains line (placeholder p) \<longrightarrow> (\<exists>s. map_of params p = Some (PyStr s))"
    using Cons.prems by simp
  show ?case
  proof (cases "contains line (placeholder p)")
    case False
    with Cons.IH [OF rest, of written] show ?thesis by auto
  next
    case True
    with Cons.prems obtain s where "map_of params p = Some (PyStr s)" by auto
    with True Cons.IH [OF rest, of "insert p written"] show ?thesis by auto
  qed
qed

lemma scan_lines_total:
  assumes "\<forall>line\<in>set lines. \<forall>p\<in>set opt. contains line (placeholder p) \<longrightarrow>
             (\<exists>s. map_of params p = Some (PyStr s))"
  shows "scan_lines params opt written out lines =
           Inr (out @ lines,
                written \<union> {p \<in> set opt. \<exists>line\<in>set lines. contains line (placeholder p)})"
  using assms
proof (induction lines arbitrary: written out)
  case Nil
  then show ?case by simp
next
  case (Cons line rest)
  have hd: "\<forall>p\<in>set opt. contains line (placeholder p) \<longrightarrow> (\<exists>s. map_of params p = Some (PyStr s))"
    using Cons.prems by simp
  have tl: "\<forall>line\<in>set rest. \<forall>p\<in>set opt. contains line (placeholder p) \<longrightarrow>
             (\<exists>s. map_of params p = Some (PyStr s))"
    using Cons.prems by simp
  show ?case
    using scan_params_total [OF hd, of written]
      Cons.IH [OF tl, of "written \<union> {p \<in> set opt. contains line (placeholder p)}" "out @ [line]"]
    by (auto intro!: arg_cong [where f = Inr])
qed

lemma process_templates_total:
  assumes "resolve (cwd w) cdir = q" and "resolve (cwd w) ref \<noteq> q"
    and "lookup (files w) q = Some Dir"
    and "\<forall>n. lookup (files w) (q @ [n]) \<noteq> Some Dir"
    and "\<forall>mif\<in>set mifs. isfile w (joinpath ref mif)"
    and "\<forall>mif\<in>set mifs. \<forall>content. read_text w (joinpath ref mif) = Inr content \<longrightarrow>
           (\<forall>line\<in>set (file_lines content). \<forall>p\<in>set opt. contains line (placeholder p) \<longrightarrow>
              (\<exists>s. map_of params p = Some (PyStr s)))"
  shows "\<exists>w'. process_templates w ref cdir params opt written mifs =
           (Inr (written \<union> {p \<in> set opt. \<exists>mif\<in>set mifs. \<exists>content.
                     read_text w (joinpath ref mif) = Inr content \<and>
                     (\<exists>line\<in>set (file_lines content). contains line (placeholder p))}), w')
         \<and> cwd w' = cwd w"
  using assms
proof (induction mifs arbitrary: w written)
  case Nil
  then show ?case by simp
next
  case (Cons mif rest)
  from Cons.prems(5) obtain content where
    rd: "read_text w (joinpath ref mif) = Inr content"
    by (auto simp: isfile_iff read_text_Inr)
  have ty: "\<forall>line\<in>set (file_lines content). \<forall>p\<in>set opt. contains line (placeholder p) \<longrightarrow>
              (\<exists>s. map_of params p = Some (PyStr s))"
    using Cons.prems(6) rd by simp
  let ?written1 = "written \<union> {p \<in> set opt. \<exists>line\<in>set (file_lines content). contains line (placeholder p)}"
  have sl: "scan_lines params opt written [] (file_lines content) = Inr (file_lines content, ?written1)"
    using scan_lines_total [OF ty, of written "[]"] by simp
  let ?t = "concat (map (\<lambda>item. item @ [CHR 0x0A]) (file_lines content))"
  let ?w1 = "w\<lparr>files := AList.update (q @ [mif]) (File ?t) (files w)\<rparr>"
  have wt: "write_text w (joinpath cdir mif) ?t = Inr ?w1"
    using Cons.prems(1,3,4)
    by (auto simp: write_text_def write_at_def resolve_joinpath split: option.splits node.splits)
  have lk: "\<And>p. lookup (files ?w1) p = (if p = q @ [mif] then Some (File ?t) else lookup (files w) p)"
    by (simp add: lookup_update)
  have a1: "resolve (cwd ?w1) cdir = q" "resolve (cwd ?w1) ref \<noteq> q"
    using Cons.prems(1,2) by simp_all
  have a3: "lookup (files ?w1) q = Some Dir" using Cons.prems(3) by (simp add: lookup_update)
  have a4: "\<forall>n. lookup (files ?w1) (q @ [n]) \<noteq> Some Dir" using Cons.prems(4) by (simp add: lookup_update)
  have same: "\<And>m. lookup (files ?w1) (resolve (cwd ?w1) (joinpath ref m)) =
      lookup (files w) (resolve (cwd w) (joinpath ref m))"
    using Cons.prems(2) by (simp add: lookup_update resolve_joinpath)
  have rsame: "\<And>m c. read_text ?w1 (joinpath ref m) = Inr c \<longleftrightarrow> read_text w (joinpath ref m) = Inr c"
    unfolding read_text_Inr same ..
  have a5: "\<forall>mif\<in>set rest. isfile ?w1 (joinpath ref mif)"
    using Cons.prems(5) unfolding isfile_iff same by simp
  have a6: "\<forall>mif\<in>set rest. \<forall>content. read_text ?w1 (joinpath ref mif) = Inr content \<longrightarrow>
           (\<forall>line\<in>set (file_lines content). \<forall>p\<in>set opt. contains line (placeholder p) \<longrightarrow>
              (\<exists>s. map_of params p = Some (PyStr s)))"
    using Cons.prems(6) unfolding rsame by simp
  from Cons.IH [OF a1 a3 a4 a5 a6, of ?written1] obtain w' where
    w': "process_templates ?w1 ref cdir params opt ?written1 rest =
           (Inr (?written1 \<union> {p \<in> set opt. \<exists>mif\<in>set rest. \<exists>content.
                     read_text ?w1 (joinpath ref mif) = Inr content \<and>
                     (\<exists>line\<in>set (file_lines content). contains line (placeholder p))}), w')"
      "cwd w' = cwd ?w1"
    by blast
  have seteq: "?written1 \<union> {p \<in> set opt. \<exists>mif\<in>set rest. \<exists>content.
                     read_text ?w1 (joinpath ref mif) = Inr content \<and>
                     (\<exists>line\<in>set (file_lines content). contains line (placeholder p))}
      = written \<union> {p \<in> set opt. \<exists>m\<in>set (mif # rest). \<exists>content.
                     read_text w (joinpath ref m) = Inr content \<and>
                     (\<exists>line\<in>set (file_lines content). contains line (placeholder p))}"
    unfolding rsame using rd by auto
  have "process_templates w ref cdir params opt written (mif # rest) =
      process_templates ?w1 ref cdir params opt ?written1 rest"
    using rd sl wt by simp
  with w' seteq show ?case by simp
qed

lemma occurs_in_some_template_iff:
  "occurs_in_some_template w ref p \<longleftrightarrow>
     (\<exists>f\<in>set input_files. \<exists>content. read_text w (joinpath ref (f @ ''.mesa'')) = Inr content \<and>
        (\<exists>line\<in>set (file_lines content). contains line (placeholder p)))"
proof -
  have "\<And>(x :: error + string) P. (case x of Inl e \<Rightarrow> False | Inr c \<Rightarrow> P c) \<longleftrightarrow> (\<exists>c. x = Inr c \<and> P c)"
    by (case_tac x) auto
  then show ?thesis
    unfolding occurs_in_some_template_def list_ex_iff by simp
qed

lemma mkdir_total:
  assumes "lookup (files w) (resolve (cwd w) p) = None"
    and "lookup (files w) (butlast (resolve (cwd w) p)) = Some Dir"
  shows "mkdir w p = Inr (w\<lparr>files := AList.update (resolve (cwd w) p) Dir (files w)\<rparr>)"
    and "resolve (cwd w) p \<noteq> []"
  using assms by (auto simp: mkdir_def lookup_def)

lemma build_prefix:
  assumes h1: "lookup (files w) (resolve (cwd w) cdir) = None"
    and h2: "lookup (files w) (butlast (resolve (cwd w) cdir)) = Some Dir"
    and h3: "\<forall>name. lookup (files w) (resolve (cwd w) cdir @ [name]) = None"
    and h4: "isfile w (joinpath ref ''b2fstate'')"
  shows "\<exists>w1 w2 w3. mkdir w cdir = Inr w1 \<and>
           copy w1 (joinpath ref ''b2fstate'') (joinpath cdir ''b2fstati'') = Inr w2 \<and>
           copy_inputs w2 ref cdir input_files = (Inr (), w3) \<and>
           cwd w3 = cwd w \<and> resolve (cwd w) ref \<noteq> resolve (cwd w) cdir \<and>
           lookup (files w3) (resolve (cwd w) cdir) = Some Dir \<and>
           (\<forall>n. lookup (files w3) (resolve (cwd w) cdir @ [n]) \<noteq> Some Dir) \<and>
           (\<forall>m c. lookup (files w3) (resolve (cwd w) (joinpath ref m)) = Some (File c) \<longleftrightarrow>
                  lookup (files w) (resolve (cwd w) (joinpath ref m)) = Some (File c))"
proof -
  let ?q = "resolve (cwd w) cdir"
  let ?rr = "resolve (cwd w) ref"
  from h4 obtain c0 where c0: "lookup (files w) (?rr @ [''b2fstate'']) = Some (File c0)"
    by (auto simp: isfile_iff resolve_joinpath)
  have ne: "?rr \<noteq> ?q" using c0 h3 by auto
  let ?w1 = "w\<lparr>files := AList.update ?q Dir (files w)\<rparr>"
  note mk = mkdir_total [OF h1 h2]
  have l1: "\<And>p. lookup (AList.update ?q Dir (files w)) p = (if p = ?q then Some Dir else lookup (files w) p)"
    using mk(2) by (simp add: lookup_update)
  have b1: "lookup (files ?w1) ?q = Some Dir" by (simp add: l1)
  have b2: "lookup (files ?w1) (?q @ [''b2fstati'']) \<noteq> Some Dir" using h3 by (simp add: l1)
  have srcq: "?rr @ [''b2fstate''] \<noteq> ?q" using c0 h1 by auto
  have b3: "isfile ?w1 (joinpath ref ''b2fstate'')"
    unfolding isfile_iff using c0 srcq by (simp add: resolve_joinpath l1)
  have b4: "resolve (cwd ?w1) (joinpath cdir ''b2fstati'') = ?q @ [''b2fstati'']"
    by (simp add: resolve_joinpath)
  have b5: "resolve (cwd ?w1) (joinpath ref ''b2fstate'') \<noteq> ?q @ [''b2fstati'']"
    by (simp add: resolve_joinpath)
  from copy_into_case [OF b1 b2 b3 b4 b5] obtain w2 where
    w2: "copy ?w1 (joinpath ref ''b2fstate'') (joinpath cdir ''b2fstati'') = Inr w2"
      "cwd w2 = cwd ?w1"
      "\<forall>p. lookup (files w2) p =
         (if p = ?q @ [''b2fstati''] then lookup (files ?w1) (resolve (cwd ?w1) (joinpath ref ''b2fstate''))
          else lookup (files ?w1) p)"
    by blast
  have c1: "resolve (cwd w2) cdir = ?q" "resolve (cwd w2) ref \<noteq> ?q"
    using w2(2) ne by simp_all
  have c3: "lookup (files w2) ?q = Some Dir" using w2(3) b1 by simp
  have c4: "\<forall>n. lookup (files w2) (?q @ [n]) \<noteq> Some Dir"
  proof
    fix n
    show "lookup (files w2) (?q @ [n]) \<noteq> Some Dir"
    proof (cases "n = ''b2fstati''")
      case True
      then show ?thesis using w2(3) c0 srcq by (simp add: resolve_joinpath l1)
    next
      case False
      then show ?thesis using w2(3) h3 by (simp add: l1)
    qed
  qed
  from copy_inputs_total [OF c1 c3 c4, of input_files] obtain w3 where
    w3: "copy_inputs w2 ref cdir input_files = (Inr (), w3)" "cwd w3 = cwd w2"
      "lookup (files w3) ?q = Some Dir" "\<forall>n. lookup (files w3) (?q @ [n]) \<noteq> Some Dir"
      "\<forall>p. (\<forall>n. p \<noteq> ?q @ [n]) \<longrightarrow> lookup (files w3) p = lookup (files w2) p"
    by blast
  have refs: "\<forall>m c. lookup (files w3) (resolve (cwd w) (joinpath ref m)) = Some (File c) \<longleftrightarrow>
                  lookup (files w) (resolve (cwd w) (joinpath ref m)) = Some (File c)"
  proof (intro allI)
    fix m c
    have out: "\<forall>n. ?rr @ [m] \<noteq> ?q @ [n]" using ne by simp
    have "lookup (files w3) (?rr @ [m]) = lookup (files w2) (?rr @ [m])"
      using w3(5) out by blast
    also have "\<dots> = lookup (files ?w1) (?rr @ [m])"
      using w2(3) out by simp
    also have "\<dots> = (if ?rr @ [m] = ?q then Some Dir else lookup (files w) (?rr @ [m]))"
      by (simp add: l1)
    finally show "lookup (files w3) (resolve (cwd w) (joinpath ref m)) = Some (File c) \<longleftrightarrow>
                  lookup (files w) (resolve (cwd w) (joinpath ref m)) = Some (File c)"
      using h1 by (auto simp: resolve_joinpath)
  qed
  show ?thesis
    using mk(1) w2(1) w3(1) w3(2) w2(2) ne w3(3) w3(4) refs
    by (intro exI [of _ ?w1] exI [of _ w2] exI [of _ w3]) simp
qed

lemma set_optional:
  "set (filter (\<lambda>k. k \<notin> required) (remdups (map fst params))) = fst ` set params - required"
  by auto


lemmas fsdefs = mkdir_def copy_def write_at_def write_text_def read_text_def isfile_def lookup_def
  input_files_def file_lines_def placeholder_def



subsection \<open>An existing case directory\<close>

text \<open>
  Claim C7. When the path \<open>case_directory\<close> already exists, \<open>build_solps_case\<close> raises
  \<open>FileExistsError\<close> and leaves the whole filesystem as it was. A second call with the
  same \<open>case_directory\<close>, in the state the first call left, always fails and changes
  nothing; it fails with \<open>FileExistsError\<close> unless the first call could not create the
  directory because its parent is missing.
\<close>

theorem build_rejects_existing_directory:
  "(lookup (files w) (resolve (cwd w) case_directory) \<noteq> None \<longrightarrow>
      build_solps_case required ref case_directory params w = (Inl FileExistsError, w)) \<and>
   (\<forall>r w1. build_solps_case required ref case_directory params w = (r, w1) \<longrightarrow>
      (\<exists>e. build_solps_case required ref case_directory params w1 = (Inl e, w1)) \<and>
      (mkdir w case_directory \<noteq> Inl FileNotFoundError \<and> mkdir w case_directory \<noteq> Inl NotADirectoryError \<longrightarrow>
         build_solps_case required ref case_directory params w1 = (Inl FileExistsError, w1)))"
proof (intro conjI allI impI)
  assume "lookup (files w) (resolve (cwd w) case_directory) \<noteq> None"
  then show "build_solps_case required ref case_directory params w = (Inl FileExistsError, w)"
    by (rule build_exists)
next
  fix r w1
  assume b: "build_solps_case required ref case_directory params w = (r, w1)"
  note k = build_keeps [OF b]
  show "\<exists>e. build_solps_case required ref case_directory params w1 = (Inl e, w1)"
  proof (cases "mkdir w case_directory")
    case (Inl e)
    with k(2) b show ?thesis by auto
  next
    case (Inr wm)
    from k(3) [OF Inr] k(1) have "lookup (files w1) (resolve (cwd w1) case_directory) \<noteq> None" by simp
    from build_exists [OF this] show ?thesis by blast
  qed
next
  fix r w1
  assume b: "build_solps_case required ref case_directory params w = (r, w1)"
    and m: "mkdir w case_directory \<noteq> Inl FileNotFoundError \<and> mkdir w case_directory \<noteq> Inl NotADirectoryError"
  note k = build_keeps [OF b]
  show "build_solps_case required ref case_directory params w1 = (Inl FileExistsError, w1)"
  proof (cases "mkdir w case_directory")
    case (Inl e)
    with m have "e = FileExistsError"
      by (auto simp: mkdir_def Let_def split: if_splits option.splits node.splits)
    with k(2) [OF Inl] b show ?thesis by auto
  next
    case (Inr wm)
    from k(3) [OF Inr] k(1) have "lookup (files w1) (resolve (cwd w1) case_directory) \<noteq> None" by simp
    from build_exists [OF this] show ?thesis .
  qed
qed

theorem build_rejects_existing_directory_witness:
  "build_solps_case {} (Abs [''ref'']) (Abs [''sim'', ''run_3'']) [] finished_world
     = (Inl FileExistsError, finished_world) \<and>
   fst (build_solps_case {} (Abs [''ref'']) (Abs [''sim'', ''run_3'']) [] plain_world) = Inr () \<and>
   build_solps_case {} (Abs [''ref'']) (Abs [''sim'', ''run_3'']) []
       (snd (build_solps_case {} (Abs [''ref'']) (Abs [''sim'', ''run_3'']) [] plain_world))
     = (Inl FileExistsError,
        snd (build_solps_case {} (Abs [''ref'']) (Abs [''sim'', ''run_3'']) [] plain_world))"
proof -
  let ?cd = "Abs [''sim'', ''run_3'']"
  have e: "lookup (files finished_world) (resolve (cwd finished_world) ?cd) \<noteq> None"
    by (simp add: finished_world_def lookup_def)
  have m: "mkdir plain_world ?cd \<noteq> Inl FileNotFoundError \<and> mkdir plain_world ?cd \<noteq> Inl NotADirectoryError"
    by (simp add: plain_world_def mkdir_def lookup_def)
  have ok: "fst (build_solps_case {} (Abs [''ref'']) ?cd [] plain_world) = Inr ()"
    by (simp add: build_solps_case_def plain_world_def fsdefs)
  note t = build_rejects_existing_directory [of finished_world ?cd "{}" "Abs [''ref'']" "[]"]
  note u = build_rejects_existing_directory [of plain_world ?cd "{}" "Abs [''ref'']" "[]"]
  from t e have a: "build_solps_case {} (Abs [''ref'']) ?cd [] finished_world = (Inl FileExistsError, finished_world)"
    by blast
  from u m have b: "build_solps_case {} (Abs [''ref'']) ?cd []
       (snd (build_solps_case {} (Abs [''ref'']) ?cd [] plain_world))
     = (Inl FileExistsError, snd (build_solps_case {} (Abs [''ref'']) ?cd [] plain_world))"
    by (metis prod.collapse)
  from a ok b show ?thesis by blast
qed


subsection \<open>Optional parameters without a template\<close>

text \<open>
  What holds of the two errors. Let \<open>case_directory\<close> not exist, with nothing below it,
  its parent be a directory and the base state \<open>b2fstate\<close> be a file of the reference
  directory, and let the optional names (the keys of the dictionary that are not
  required) be non-empty. If the reference directory holds no template file,
  \<open>build_solps_case\<close> raises the \<open>FileNotFoundError\<close> that names the optional parameters.
  If it holds one, and every optional parameter whose placeholder occurs has a string
  value, so that \<open>str.replace\<close> accepts it, and the placeholder of some optional
  parameter occurs in no line of any template, it raises the \<open>ValueError\<close> that names
  exactly those parameters.
\<close>

theorem build_optional_parameter_errors:
  assumes h1: "lookup (files w) (resolve (cwd w) cdir) = None"
    and h2: "lookup (files w) (butlast (resolve (cwd w) cdir)) = Some Dir"
    and h3: "\<forall>name. lookup (files w) (resolve (cwd w) cdir @ [name]) = None"
    and h4: "isfile w (joinpath ref ''b2fstate'')"
    and h5: "fst ` set params - required \<noteq> {}"
  shows "(\<not> (\<exists>f\<in>set input_files. isfile w (joinpath ref (f @ ''.mesa''))) \<longrightarrow>
           (\<exists>w'. build_solps_case required ref cdir params w =
                    (Inl (FileNotFoundError_mesa (fst ` set params - required)), w'))) \<and>
         ((\<exists>f\<in>set input_files. isfile w (joinpath ref (f @ ''.mesa''))) \<and>
          (\<forall>p\<in>fst ` set params - required.
              occurs_in_some_template w ref p \<longrightarrow> (\<exists>s. map_of params p = Some (PyStr s))) \<and>
          {p \<in> fst ` set params - required. \<not> occurs_in_some_template w ref p} \<noteq> {} \<longrightarrow>
           (\<exists>w'. build_solps_case required ref cdir params w =
                    (Inl (ValueError_mesa
                       {p \<in> fst ` set params - required. \<not> occurs_in_some_template w ref p}), w')))"
proof -
  let ?q = "resolve (cwd w) cdir"
  let ?opt = "filter (\<lambda>k. k \<notin> required) (remdups (map fst params))"
  from build_prefix [OF h1 h2 h3 h4] obtain w1 w2 w3 where
    mk: "mkdir w cdir = Inr w1"
    and cp: "copy w1 (joinpath ref ''b2fstate'') (joinpath cdir ''b2fstati'') = Inr w2"
    and ci: "copy_inputs w2 ref cdir input_files = (Inr (), w3)"
    and cw: "cwd w3 = cwd w"
    and ne: "resolve (cwd w) ref \<noteq> ?q"
    and dq: "lookup (files w3) ?q = Some Dir"
    and nd: "\<forall>n. lookup (files w3) (?q @ [n]) \<noteq> Some Dir"
    and refs: "\<forall>m c. lookup (files w3) (resolve (cwd w) (joinpath ref m)) = Some (File c) \<longleftrightarrow>
                  lookup (files w) (resolve (cwd w) (joinpath ref m)) = Some (File c)"
    by blast
  have isf: "\<And>m. isfile w3 (joinpath ref m) = isfile w (joinpath ref m)"
    unfolding isfile_iff cw using refs by simp
  have rdt: "\<And>m c. read_text w3 (joinpath ref m) = Inr c \<longleftrightarrow> read_text w (joinpath ref m) = Inr c"
    unfolding read_text_Inr cw using refs by simp
  let ?mifs = "filter (\<lambda>f. isfile w3 (joinpath ref f)) (map (\<lambda>f. f @ ''.mesa'') input_files)"
  have mifs: "set ?mifs = {f @ ''.mesa'' | f. f \<in> set input_files \<and> isfile w (joinpath ref (f @ ''.mesa''))}"
    by (auto simp: isf)
  have "set ?opt \<noteq> {}" using h5 unfolding set_optional .
  then have "?opt \<noteq> []" by (metis empty_set)
  then have optne: "length ?opt \<noteq> 0" by simp
  have unfold: "build_solps_case required ref cdir params w =
      (if length ?mifs = 0 then (Inl (FileNotFoundError_mesa (set ?opt)), w3)
       else (case process_templates w3 ref cdir params ?opt {} ?mifs of
               (Inl e, w4) \<Rightarrow> (Inl e, w4)
             | (Inr written, w4) \<Rightarrow>
                 (if set ?opt - written \<noteq> {} then (Inl (ValueError_mesa (set ?opt - written)), w4)
                  else (Inr (), w4))))"
    using mk cp ci optne by (auto simp: build_solps_case_def Let_def split: prod.splits sum.splits)
  show ?thesis
  proof (intro conjI impI)
    assume "\<not> (\<exists>f\<in>set input_files. isfile w (joinpath ref (f @ ''.mesa'')))"
    then have "set ?mifs = {}" unfolding mifs by blast
    then have "?mifs = []" by (metis set_empty)
    then show "\<exists>w'. build_solps_case required ref cdir params w =
                    (Inl (FileNotFoundError_mesa (fst ` set params - required)), w')"
      unfolding unfold set_optional by simp
  next
    assume a: "(\<exists>f\<in>set input_files. isfile w (joinpath ref (f @ ''.mesa''))) \<and>
          (\<forall>p\<in>fst ` set params - required.
              occurs_in_some_template w ref p \<longrightarrow> (\<exists>s. map_of params p = Some (PyStr s))) \<and>
          {p \<in> fst ` set params - required. \<not> occurs_in_some_template w ref p} \<noteq> {}"
    then have "set ?mifs \<noteq> {}" unfolding mifs by blast
    then have mne: "?mifs \<noteq> []" by (metis empty_set)
    have p1: "resolve (cwd w3) cdir = ?q" "resolve (cwd w3) ref \<noteq> ?q" using cw ne by simp_all
    have p5: "\<forall>mif\<in>set ?mifs. isfile w3 (joinpath ref mif)" by simp
    have p6: "\<forall>mif\<in>set ?mifs. \<forall>content. read_text w3 (joinpath ref mif) = Inr content \<longrightarrow>
           (\<forall>line\<in>set (file_lines content). \<forall>p\<in>set ?opt. contains line (placeholder p) \<longrightarrow>
              (\<exists>s. map_of params p = Some (PyStr s)))"
    proof (intro ballI allI impI)
      fix mif content line p
      assume m: "mif \<in> set ?mifs" and r: "read_text w3 (joinpath ref mif) = Inr content"
        and l: "line \<in> set (file_lines content)" and p: "p \<in> set ?opt"
        and c: "contains line (placeholder p)"
      from m obtain f where f: "f \<in> set input_files" "mif = f @ ''.mesa''" unfolding mifs by blast
      from r have "read_text w (joinpath ref (f @ ''.mesa'')) = Inr content" using f rdt by simp
      with f(1) l c have "occurs_in_some_template w ref p"
        unfolding occurs_in_some_template_iff by blast
      moreover from p have "p \<in> fst ` set params - required" unfolding set_optional .
      ultimately show "\<exists>s. map_of params p = Some (PyStr s)" using a by blast
    qed
    from process_templates_total [OF p1 dq nd p5 p6, of "{}"] obtain w4 where
      pt: "process_templates w3 ref cdir params ?opt {} ?mifs =
             (Inr ({} \<union> {p \<in> set ?opt. \<exists>mif\<in>set ?mifs. \<exists>content.
                       read_text w3 (joinpath ref mif) = Inr content \<and>
                       (\<exists>line\<in>set (file_lines content). contains line (placeholder p))}), w4)"
      by blast
    have wr: "{} \<union> {p \<in> set ?opt. \<exists>mif\<in>set ?mifs. \<exists>content.
                       read_text w3 (joinpath ref mif) = Inr content \<and>
                       (\<exists>line\<in>set (file_lines content). contains line (placeholder p))}
        = {p \<in> fst ` set params - required. occurs_in_some_template w ref p}"
    proof -
      have "\<And>p. (\<exists>mif\<in>set ?mifs. \<exists>content. read_text w3 (joinpath ref mif) = Inr content \<and>
                       (\<exists>line\<in>set (file_lines content). contains line (placeholder p)))
            \<longleftrightarrow> occurs_in_some_template w ref p"
      proof -
        fix p
        have "(\<exists>mif\<in>set ?mifs. \<exists>content. read_text w3 (joinpath ref mif) = Inr content \<and>
                       (\<exists>line\<in>set (file_lines content). contains line (placeholder p)))
          \<longleftrightarrow> (\<exists>f\<in>set input_files. isfile w (joinpath ref (f @ ''.mesa'')) \<and>
                 (\<exists>content. read_text w (joinpath ref (f @ ''.mesa'')) = Inr content \<and>
                       (\<exists>line\<in>set (file_lines content). contains line (placeholder p))))"
          unfolding mifs rdt by blast
        also have "\<dots> \<longleftrightarrow> (\<exists>f\<in>set input_files.
                 (\<exists>content. read_text w (joinpath ref (f @ ''.mesa'')) = Inr content \<and>
                       (\<exists>line\<in>set (file_lines content). contains line (placeholder p))))"
          unfolding isfile_iff read_text_Inr by blast
        finally show "(\<exists>mif\<in>set ?mifs. \<exists>content. read_text w3 (joinpath ref mif) = Inr content \<and>
                       (\<exists>line\<in>set (file_lines content). contains line (placeholder p)))
            \<longleftrightarrow> occurs_in_some_template w ref p"
          unfolding occurs_in_some_template_iff .
      qed
      then show ?thesis unfolding set_optional by simp
    qed
    have un: "set ?opt - {p \<in> fst ` set params - required. occurs_in_some_template w ref p}
        = {p \<in> fst ` set params - required. \<not> occurs_in_some_template w ref p}"
      unfolding set_optional by blast
    let ?W = "{p \<in> fst ` set params - required. occurs_in_some_template w ref p}"
    have pt': "process_templates w3 ref cdir params ?opt {} ?mifs = (Inr ?W, w4)"
      using pt unfolding wr .
    have "build_solps_case required ref cdir params w =
        (if set ?opt - ?W \<noteq> {} then (Inl (ValueError_mesa (set ?opt - ?W)), w4) else (Inr (), w4))"
    proof -
      have lne: "length ?mifs \<noteq> 0" using mne by (metis length_0_conv)
      show ?thesis by (simp only: unfold lne if_False pt' prod.case sum.case)
    qed
    then have "build_solps_case required ref cdir params w =
        (Inl (ValueError_mesa {p \<in> fst ` set params - required. \<not> occurs_in_some_template w ref p}), w4)"
      unfolding un using a by simp
    then show "\<exists>w'. build_solps_case required ref cdir params w =
                    (Inl (ValueError_mesa
                       {p \<in> fst ` set params - required. \<not> occurs_in_some_template w ref p}), w')"
      by blast
  qed
qed

theorem build_optional_parameter_errors_witness:
  "(\<exists>w'. build_solps_case {''chi''} (Abs [''ref'']) (Abs [''sim'', ''run_3''])
            [(''chi'', PyNum 1), (''foo'', PyStr ''1.5''), (''bar'', PyNum 2)] plain_world
          = (Inl (FileNotFoundError_mesa {''foo'', ''bar''}), w')) \<and>
   (\<exists>w'. build_solps_case {''chi''} (Abs [''ref'']) (Abs [''sim'', ''run_3''])
            [(''chi'', PyNum 1), (''foo'', PyStr ''1.5''), (''bar'', PyNum 2)] template_world
          = (Inl (ValueError_mesa {''bar''}), w'))"
proof -
  let ?cd = "Abs [''sim'', ''run_3'']"
  let ?ref = "Abs [''ref'']"
  let ?ps = "[(''chi'', PyNum 1), (''foo'', PyStr ''1.5''), (''bar'', PyNum 2)]"
  have opt: "fst ` set ?ps - {''chi''} = {''foo'', ''bar''}" by auto
  have p1: "lookup (files plain_world) (resolve (cwd plain_world) ?cd) = None"
    and p2: "lookup (files plain_world) (butlast (resolve (cwd plain_world) ?cd)) = Some Dir"
    and p3: "\<forall>name. lookup (files plain_world) (resolve (cwd plain_world) ?cd @ [name]) = None"
    and p4: "isfile plain_world (joinpath ?ref ''b2fstate'')"
    by (simp_all add: plain_world_def lookup_def isfile_def)
  have p5: "fst ` set ?ps - {''chi''} \<noteq> {}" unfolding opt by simp
  have p6: "\<not> (\<exists>f\<in>set input_files. isfile plain_world (joinpath ?ref (f @ ''.mesa'')))"
    by (simp add: plain_world_def fsdefs)
  have t1: "lookup (files template_world) (resolve (cwd template_world) ?cd) = None"
    and t2: "lookup (files template_world) (butlast (resolve (cwd template_world) ?cd)) = Some Dir"
    and t3: "\<forall>name. lookup (files template_world) (resolve (cwd template_world) ?cd @ [name]) = None"
    and t4: "isfile template_world (joinpath ?ref ''b2fstate'')"
    by (simp_all add: template_world_def lookup_def isfile_def)
  have foo: "occurs_in_some_template template_world ?ref ''foo''"
    by (simp add: occurs_in_some_template_def template_world_def fsdefs)
  have bar: "\<not> occurs_in_some_template template_world ?ref ''bar''"
    by (simp add: occurs_in_some_template_def template_world_def fsdefs)
  have t6: "\<exists>f\<in>set input_files. isfile template_world (joinpath ?ref (f @ ''.mesa''))"
    by (simp add: template_world_def fsdefs)
  have t7: "\<forall>p\<in>fst ` set ?ps - {''chi''}.
      occurs_in_some_template template_world ?ref p \<longrightarrow> (\<exists>s. map_of ?ps p = Some (PyStr s))"
    unfolding opt using bar by simp
  have un: "{p \<in> fst ` set ?ps - {''chi''}. \<not> occurs_in_some_template template_world ?ref p} = {''bar''}"
    unfolding opt using foo bar by auto
  from build_optional_parameter_errors [OF p1 p2 p3 p4 p5] p6
  have a: "\<exists>w'. build_solps_case {''chi''} ?ref ?cd ?ps plain_world
          = (Inl (FileNotFoundError_mesa {''foo'', ''bar''}), w')"
    unfolding opt by blast
  from build_optional_parameter_errors [OF t1 t2 t3 t4 p5] t6 t7
  have b: "\<exists>w'. build_solps_case {''chi''} ?ref ?cd ?ps template_world
          = (Inl (ValueError_mesa {''bar''}), w')"
    unfolding un by simp
  from a b show ?thesis by blast
qed


text \<open>
  Claim C8, evaluated on the code. The dictionary holds numbers, as the program passes
  them. The placeholder of \<open>foo\<close> occurs in the template and that of \<open>bar\<close> in none, so
  the call should fail with the \<open>ValueError\<close> that names \<open>bar\<close>. It fails earlier instead:
  the value of \<open>foo\<close> is handed to \<open>str.replace\<close> as it is, and the call ends in a
  \<open>TypeError\<close> before the unused parameters are looked at.
\<close>

theorem build_number_valued_hides_unused:
  "occurs_in_some_template template_world (Abs [''ref'']) ''foo'' \<and>
   \<not> occurs_in_some_template template_world (Abs [''ref'']) ''bar'' \<and>
   fst (build_solps_case {''chi''} (Abs [''ref'']) (Abs [''sim'', ''run_3''])
          [(''chi'', PyNum 1), (''foo'', PyNum 1.5), (''bar'', PyNum 2)] template_world)
     = Inl TypeError \<and>
   fst (build_solps_case {''chi''} (Abs [''ref'']) (Abs [''sim'', ''run_3''])
          [(''chi'', PyNum 1), (''foo'', PyNum 1.5), (''bar'', PyNum 2)] template_world)
     \<noteq> Inl (ValueError_mesa {''bar''})"
  by (simp add: occurs_in_some_template_def build_solps_case_def template_world_def fsdefs)

subsection \<open>What is written for a template\<close>

text \<open>
  Claim C1, evaluated on the code. With the template line \<open>x = {foo}\<close> and
  \<open>foo = "1.5"\<close> the call succeeds, but the file it writes is \<open>input.dat.mesa\<close> in the
  case directory, and its text is the template's line as it was read, placeholder
  included, followed by a second newline; \<open>input.dat\<close> in the case directory is the
  plain copy of the reference file. The substituted line \<open>x = 1.5\<close>, which \<open>str.replace\<close>
  computes, is written nowhere.
\<close>

theorem build_leaves_template_unsubstituted:
  "\<exists>w'. build_solps_case {''chi''} (Abs [''ref'']) (Abs [''sim'', ''run_3''])
           [(''chi'', PyNum 1), (''foo'', PyStr ''1.5'')] template_world = (Inr (), w') \<and>
     lookup (files w') [''sim'', ''run_3'', ''input.dat.mesa'']
       = Some (File (''x = {foo}'' @ [CHR 0x0A, CHR 0x0A])) \<and>
     lookup (files w') [''sim'', ''run_3'', ''input.dat''] = Some (File (''x = 0'' @ [CHR 0x0A])) \<and>
     replace (''x = {foo}'' @ [CHR 0x0A]) (placeholder ''foo'') ''1.5'' = ''x = 1.5'' @ [CHR 0x0A]"
  by (simp add: build_solps_case_def template_world_def fsdefs replace_def)


text \<open>With a number for \<open>foo\<close> the same call ends in the \<open>TypeError\<close> of \<open>str.replace\<close>.\<close>

theorem build_number_valued_parameter:
  "fst (build_solps_case {''chi''} (Abs [''ref'']) (Abs [''sim'', ''run_3''])
           [(''chi'', PyNum 1), (''foo'', PyNum 1.5)] template_world) = Inl TypeError"
  by (simp add: build_solps_case_def template_world_def fsdefs)


section \<open>Properties of the launcher\<close>

subsection \<open>Finding the marker in the text of the output\<close>

lemma find_str_startswith: "startswith l m \<Longrightarrow> find_str l m = 0"
  by (cases l; cases m) simp_all

lemma startswith_Cons_hd: "startswith (c # cs) m \<Longrightarrow> m \<noteq> [] \<Longrightarrow> hd m = c"
  by (cases m) simp_all

lemma find_str_neg: "find_str s m < 0 \<Longrightarrow> find_str s m = - 1"
  by (induction s) (auto simp: Let_def split: if_splits)

lemma find_str_skip:
  "\<forall>i<length ys. \<not> startswith (drop i ys @ s) m \<Longrightarrow>
   find_str (ys @ s) m = (if find_str s m < 0 then - 1 else find_str s m + int (length ys))"
proof (induction ys)
  case Nil
  then show ?case by (simp add: find_str_neg)
next
  case (Cons y ys)
  have 0: "\<not> startswith ((y # ys) @ s) m" using Cons.prems by fastforce
  have "\<forall>i<length ys. \<not> startswith (drop i ys @ s) m"
  proof (intro allI impI)
    fix i assume "i < length ys"
    then have "Suc i < length (y # ys)" by simp
    with Cons.prems have "\<not> startswith (drop (Suc i) (y # ys) @ s) m" by blast
    then show "\<not> startswith (drop i ys @ s) m" by simp
  qed
  from Cons.IH [OF this] 0 show ?case by (simp add: Let_def)
qed

lemma escape_byte_cases:
  "escape_byte q x = [x] \<or> (\<exists>t. escape_byte q x = CHR 0x5C # t)"
  by (simp add: escape_byte_def)

lemma escape_byte_plain: "escape_byte q a = [a] \<Longrightarrow> a \<noteq> q \<and> a \<noteq> CHR 0x5C"
  by (auto simp: escape_byte_def split: if_splits)

lemma startswith_escaped:
  "\<forall>c\<in>set m. escape_byte q c = [c] \<Longrightarrow>
   startswith (concat (map (escape_byte q) xs) @ [q]) m \<longleftrightarrow> startswith xs m"
proof (induction xs arbitrary: m)
  case Nil
  show ?case
  proof (cases m)
    case Nil
    then show ?thesis by simp
  next
    case (Cons a m')
    with Nil.prems have "a \<noteq> q" using escape_byte_plain by auto
    with Cons show ?thesis by auto
  qed
next
  case (Cons x xs)
  show ?case
  proof (cases m)
    case Nil
    then show ?thesis by simp
  next
    case m: (Cons a m')
    from Cons.prems m have a: "escape_byte q a = [a]" and m': "\<forall>c\<in>set m'. escape_byte q c = [c]"
      by simp_all
    from escape_byte_cases [of q x] show ?thesis
    proof
      assume e: "escape_byte q x = [x]"
      then show ?thesis using Cons.IH [OF m'] m by simp
    next
      assume "\<exists>t. escape_byte q x = CHR 0x5C # t"
      then obtain t where t: "escape_byte q x = CHR 0x5C # t" by blast
      have "a \<noteq> CHR 0x5C" using escape_byte_plain [OF a] by simp
      moreover have "x \<noteq> a" using a t escape_byte_plain [OF a] by auto
      ultimately show ?thesis using m t by auto
    qed
  qed
qed

lemma find_str_escaped:
  assumes "m \<noteq> []" and "\<forall>c\<in>set m. escape_byte q c = [c]"
    and "\<forall>x i. 0 < i \<longrightarrow> i < length (escape_byte q x) \<longrightarrow> escape_byte q x ! i \<noteq> hd m"
  shows "find_str xs m = int k \<Longrightarrow>
         find_str (concat (map (escape_byte q) xs) @ [q]) m
           = int (length (concat (map (escape_byte q) (take k xs))))"
proof (induction xs arbitrary: k)
  case Nil
  with assms(1) show ?case by simp
next
  case (Cons x xs)
  let ?e = "escape_byte q x"
  let ?rest = "concat (map (escape_byte q) xs) @ [q]"
  show ?case
  proof (cases "startswith (x # xs) m")
    case True
    then have "k = 0" using Cons.prems by simp
    moreover have "startswith (concat (map (escape_byte q) (x # xs)) @ [q]) m"
      using True startswith_escaped [OF assms(2)] by blast
    ultimately show ?thesis by (simp add: find_str_startswith)
  next
    case False
    with Cons.prems have r: "find_str xs m \<ge> 0" "find_str xs m + 1 = int k"
      by (auto simp: Let_def split: if_splits)
    then obtain k' where k': "k = Suc k'" "find_str xs m = int k'"
      by (cases k) auto
    note ih = Cons.IH [OF k'(2)]
    have skip: "\<forall>i<length ?e. \<not> startswith (drop i ?e @ ?rest) m"
    proof (intro allI impI)
      fix i assume i: "i < length ?e"
      show "\<not> startswith (drop i ?e @ ?rest) m"
      proof (cases i)
        case 0
        have "\<not> startswith (concat (map (escape_byte q) (x # xs)) @ [q]) m"
          using False startswith_escaped [OF assms(2)] by blast
        with 0 show ?thesis by simp
      next
        case (Suc j)
        have "drop i ?e @ ?rest = ?e ! i # (drop (Suc i) ?e @ ?rest)"
          using i by (simp add: Cons_nth_drop_Suc)
        moreover have "?e ! i \<noteq> hd m" using assms(3) i Suc by simp
        ultimately show ?thesis using startswith_Cons_hd [OF _ assms(1)] by metis
      qed
    qed
    have "find_str (concat (map (escape_byte q) (x # xs)) @ [q]) m = find_str (?e @ ?rest) m"
      by simp
    also have "\<dots> = find_str ?rest m + int (length ?e)"
      using find_str_skip [OF skip] ih by simp
    also have "\<dots> = int (length (concat (map (escape_byte q) (take k (x # xs)))))"
      using ih k'(1) by simp
    finally show ?thesis .
  qed
qed

lemma bytes_quote_cases: "bytes_quote b = CHR 0x27 \<or> bytes_quote b = CHR 0x22"
  by (simp add: bytes_quote_def)

lemma hex_digit_not_S:
  assumes "d < 16"
  shows "hex_digit d \<noteq> CHR ''S''"
proof
  assume "hex_digit d = CHR ''S''"
  then have "(of_char (hex_digit d) :: nat) = of_char (CHR ''S'')" by simp
  then show False using assms by (simp add: hex_digit_def split: if_splits)
qed

lemma escape_tail_chars:
  assumes "q = CHR 0x27 \<or> q = CHR 0x22"
  shows "\<forall>c\<in>set (tl (escape_byte q x)). c \<noteq> CHR ''S''"
proof -
  have h1: "hex_digit ((of_char x :: nat) div 16) \<noteq> CHR ''S''"
    by (rule hex_digit_not_S) (simp add: less_mult_imp_div_less)
  have h2: "hex_digit ((of_char x :: nat) mod 16) \<noteq> CHR ''S''"
    by (rule hex_digit_not_S) simp
  from assms show ?thesis
  proof
    assume "q = CHR 0x27"
    then show ?thesis using h1 h2 by (simp add: escape_byte_def)
  next
    assume "q = CHR 0x22"
    then show ?thesis using h1 h2 by (simp add: escape_byte_def)
  qed
qed

lemma escape_tail_not_S:
  assumes "q = CHR 0x27 \<or> q = CHR 0x22" and "0 < i" and "i < length (escape_byte q x)"
  shows "escape_byte q x ! i \<noteq> CHR ''S''"
proof -
  from assms(2) obtain j where j: "i = Suc j" by (cases i) auto
  with assms(3) have "j < length (tl (escape_byte q x))" by simp
  then have "tl (escape_byte q x) ! j \<in> set (tl (escape_byte q x))" by (rule nth_mem)
  moreover have "tl (escape_byte q x) ! j = escape_byte q x ! i"
    using j assms(3) by (simp add: nth_tl)
  ultimately show ?thesis using escape_tail_chars [OF assms(1)] by metis
qed

lemma findstr_plain:
  "q = CHR 0x27 \<or> q = CHR 0x22 \<Longrightarrow> \<forall>c\<in>set findstr. escape_byte q c = [c]"
  by (elim disjE) (simp_all add: findstr_def escape_byte_def)

lemma escape_marker_line:
  "q = CHR 0x27 \<or> q = CHR 0x22 \<Longrightarrow>
   concat (map (escape_byte q) (''Submitted batch job 12345'' @ [CHR 0x0A]))
     = ''Submitted batch job 12345'' @ [CHR 0x5C, CHR ''n'']"
  by (elim disjE) (simp_all add: escape_byte_def)

lemma parse_job_id_12345:
  assumes "find_str (pre @ ''Submitted batch job 12345'' @ [CHR 0x0A]) findstr = int (length pre)"
  shows "parse_job_id (pre @ ''Submitted batch job 12345'' @ [CHR 0x0A]) = ''12345''"
proof -
  let ?out = "pre @ ''Submitted batch job 12345'' @ [CHR 0x0A]"
  let ?q = "bytes_quote ?out"
  let ?E = "concat (map (escape_byte ?q) pre)"
  note q = bytes_quote_cases [of ?out]
  have hd: "hd findstr = CHR ''S''" and ne: "findstr \<noteq> []" by (simp_all add: findstr_def)
  have tails: "\<forall>x i. 0 < i \<longrightarrow> i < length (escape_byte ?q x) \<longrightarrow> escape_byte ?q x ! i \<noteq> hd findstr"
    unfolding hd using escape_tail_not_S [OF q] by blast
  have "find_str (concat (map (escape_byte ?q) ?out) @ [?q]) findstr
          = int (length (concat (map (escape_byte ?q) (take (length pre) ?out))))"
    by (rule find_str_escaped [OF ne findstr_plain [OF q] tails assms])
  then have f1: "find_str (concat (map (escape_byte ?q) ?out) @ [?q]) findstr = int (length ?E)"
    by simp
  have body: "concat (map (escape_byte ?q) ?out)
      = ?E @ ''Submitted batch job 12345'' @ [CHR 0x5C, CHR ''n'']"
    using escape_marker_line [OF q] by (simp only: map_append concat_append)
  have sb: "str_bytes ?out = [CHR ''b'', ?q] @ (concat (map (escape_byte ?q) ?out) @ [?q])"
    by (simp add: str_bytes_def Let_def)
  have skip: "\<forall>i<length [CHR ''b'', ?q]. \<not> startswith (drop i [CHR ''b'', ?q] @ (concat (map (escape_byte ?q) ?out) @ [?q])) findstr"
  proof (intro allI impI)
    fix i assume "i < length [CHR ''b'', ?q]"
    then have "i = 0 \<or> i = 1" by auto
    then show "\<not> startswith (drop i [CHR ''b'', ?q] @ (concat (map (escape_byte ?q) ?out) @ [?q])) findstr"
      using q by (auto simp: findstr_def)
  qed
  have tmp: "find_str (str_bytes ?out) findstr = int (length ?E) + 2"
    unfolding sb using find_str_skip [OF skip] f1 by simp
  have s: "str_bytes ?out = ([CHR ''b'', ?q] @ ?E @ ''Submitted batch job '') @ ''12345'' @ [CHR 0x5C, CHR ''n'', ?q]"
    unfolding sb body by simp
  have len: "length (str_bytes ?out) = length ?E + 30"
    unfolding s by simp
  have l1: "length ([CHR ''b'', ?q] @ ?E @ ''Submitted batch job '') = length ?E + 22" by simp
  have start: "slice_index (length (str_bytes ?out)) (int (length ?E) + 2 + int (length findstr) + 1) = length ?E + 22"
    unfolding len by (simp add: slice_index_def findstr_def)
  have stop: "slice_index (length (str_bytes ?out)) (- 3) = length ?E + 27"
    unfolding len by (simp add: slice_index_def)
  have "drop (length ?E + 22) (str_bytes ?out) = ''12345'' @ [CHR 0x5C, CHR ''n'', ?q]"
    unfolding s using l1 by (metis append_eq_conv_conj)
  then have "take 5 (drop (length ?E + 22) (str_bytes ?out)) = ''12345''" by simp
  then show ?thesis
    unfolding parse_job_id_def Let_def tmp slice_def start stop by simp
qed

lemma parse_job_id_empty: "parse_job_id [] = []"
  by (simp add: parse_job_id_def str_bytes_def bytes_quote_def findstr_def slice_def slice_index_def Let_def)

subsection \<open>The course of a launch\<close>

lemma build_cwd:
  "build_solps_case required ref cdir params w = (r, w') \<Longrightarrow> cwd w' = cwd w"
  by (rule build_keeps(1))

lemma chdir_Inr: "chdir w p = Inr w' \<Longrightarrow> cwd w' = resolve (cwd w) p \<and> files w' = files w"
  by (auto simp: chdir_def Let_def split: option.splits node.splits)

lemma launch_outcome:
  assumes "launch ext self run_num sims params now w = (r, w')"
  shows "(\<exists>e. r = Inl e \<and> cwd w' = cwd w) \<or>
         (\<exists>w3 out rc fs4. cwd w3 = resolve (cwd w) (joinpath sims (''run_'' @ str_int run_num)) \<and>
            run_shell ext (submit_command self) w3 = (out, rc, fs4) \<and>
            ((\<exists>e. chdir (w3\<lparr>files := fs4\<rparr>) sims = Inl e \<and> r = Inl e \<and> w' = w3\<lparr>files := fs4\<rparr>) \<or>
             (chdir (w3\<lparr>files := fs4\<rparr>) sims = Inr w' \<and>
              r = Inr \<lparr>parameters = params, run_number = run_num,
                       directory = joinpath sims (''run_'' @ str_int run_num),
                       launch_time = now, run_id = parse_job_id out,
                       timeout_hours = timeout_hours_cfg self\<rparr>)))"
proof -
  let ?cd = "joinpath sims (''run_'' @ str_int run_num)"
  obtain rb w1 where b: "build_solps_case (required_parameters ext) (reference_directory self) ?cd params w = (rb, w1)"
    by (cases "build_solps_case (required_parameters ext) (reference_directory self) ?cd params w")
  note c1 = build_cwd [OF b]
  show ?thesis
  proof (cases "\<exists>e. r = Inl e \<and> cwd w' = cwd w")
    case True
    then show ?thesis by blast
  next
    case False
    with assms b c1 obtain fs2 w3 out rc fs4 where
      ch: "chdir (w1\<lparr>files := fs2\<rparr>) ?cd = Inr w3"
      and sh: "run_shell ext (submit_command self) w3 = (out, rc, fs4)"
      and fin: "(case chdir (w3\<lparr>files := fs4\<rparr>) sims of
                  Inl e \<Rightarrow> (Inl e, w3\<lparr>files := fs4\<rparr>)
                | Inr w5 \<Rightarrow>
                    (Inr \<lparr>parameters = params, run_number = run_num, directory = ?cd,
                          launch_time = now, run_id = parse_job_id out,
                          timeout_hours = timeout_hours_cfg self\<rparr>, w5)) = (r, w')"
      by (auto simp: launch_def Let_def split: sum.splits prod.splits)
    from chdir_Inr [OF ch] c1 have c3: "cwd w3 = resolve (cwd w) ?cd" by simp
    from fin have "(\<exists>e. chdir (w3\<lparr>files := fs4\<rparr>) sims = Inl e \<and> r = Inl e \<and> w' = w3\<lparr>files := fs4\<rparr>) \<or>
             (chdir (w3\<lparr>files := fs4\<rparr>) sims = Inr w' \<and>
              r = Inr \<lparr>parameters = params, run_number = run_num, directory = ?cd,
                       launch_time = now, run_id = parse_job_id out,
                       timeout_hours = timeout_hours_cfg self\<rparr>)"
      by (auto split: sum.splits)
    with c3 sh show ?thesis by blast
  qed
qed

lemma find_str_not_contains: "\<not> contains s m \<Longrightarrow> find_str s m = - 1"
  by (induction s) (auto simp: Let_def)

lemma str_int_3: "str_int 3 = ''3''"
  by code_simp

lemmas launch_example_defs = launch_def example_externals_def example_solps_def
  example_parameters_def plain_world_def build_solps_case_def fsdefs chdir_def str_int_3 Let_def

lemma example_launch_returns:
  "\<exists>run w'. launch (example_externals out rc) example_solps 3 (Abs [''sim'']) example_parameters 1000
       plain_world = (Inr run, w') \<and> run_id run = parse_job_id out \<and> cwd w' = [''sim'']
       \<and> directory run = Abs [''sim'', ''run_3'']"
  by (simp add: launch_example_defs)

subsection \<open>The job id\<close>

text \<open>
  Claim C9. When \<open>launch\<close> returns and the submission output is
  \<open>...Submitted batch job 12345\n\<close>, some text \<open>pre\<close> followed by the marker line, with
  the marker occurring there for the first time, the \<open>run_id\<close> of the returned handle
  is the string \<open>12345\<close>.
\<close>

theorem launch_parses_job_id:
  assumes "launch ext self run_num sims params now w = (Inr run, w')"
    and "\<forall>command v. fst (run_shell ext command v) = pre @ ''Submitted batch job 12345'' @ [CHR 0x0A]"
    and "find_str (pre @ ''Submitted batch job 12345'' @ [CHR 0x0A]) findstr = int (length pre)"
  shows "run_id run = ''12345''"
proof -
  from launch_outcome [OF assms(1)] obtain w3 out rc fs4 where
    sh: "run_shell ext (submit_command self) w3 = (out, rc, fs4)"
    and r: "run_id run = parse_job_id out"
    by auto
  from sh assms(2) have "out = pre @ ''Submitted batch job 12345'' @ [CHR 0x0A]"
    by (metis fst_conv)
  with r parse_job_id_12345 [OF assms(3)] show ?thesis by simp
qed

theorem launch_parses_job_id_witness:
  "find_str (''...'' @ ''Submitted batch job 12345'' @ [CHR 0x0A]) findstr = int (length ''...'') \<and>
   (\<exists>run w'. launch (example_externals (''...'' @ ''Submitted batch job 12345'' @ [CHR 0x0A]) 0)
                example_solps 3 (Abs [''sim'']) example_parameters 1000 plain_world = (Inr run, w')
            \<and> run_id run = ''12345'')"
proof -
  let ?out = "''...'' @ ''Submitted batch job 12345'' @ [CHR 0x0A]"
  from example_launch_returns [of ?out 0] obtain run w' where
    L: "launch (example_externals ?out 0) example_solps 3 (Abs [''sim'']) example_parameters 1000
          plain_world = (Inr run, w')"
    by blast
  have h2: "\<forall>command v. fst (run_shell (example_externals ?out 0) command v) = ?out"
    by (simp add: example_externals_def)
  have h3: "find_str ?out findstr = int (length ''...'')"
    by (simp add: findstr_def)
  from launch_parses_job_id [OF L h2 h3] L h3 show ?thesis by blast
qed

subsection \<open>A failed submission\<close>

text \<open>
  Claim C2, as the code has it. \<open>launch\<close> looks neither at the exit status of the
  submission nor at whether the marker occurs: if a call returns a handle, the same
  call with any other output \<open>out\<close> and exit status \<open>rc\<close> of the shell returns the same
  handle and state, except that \<open>run_id\<close> is the slice of \<open>str(out)\<close> from
  \<open>find + 20\<close> to \<open>-3\<close>; without the marker \<open>find\<close> is \<open>-1\<close> and the slice is
  \<open>str(out)[19:-3]\<close>. No error is raised for the submission.
\<close>

theorem launch_ignores_submission_outcome:
  assumes "launch ext self run_num sims params now w = (Inr run, w')"
  shows "launch (ext\<lparr>run_shell := \<lambda>command v. (out, rc, snd (snd (run_shell ext command v)))\<rparr>)
           self run_num sims params now w = (Inr (run\<lparr>run_id := parse_job_id out\<rparr>), w')
         \<and> (\<not> contains (str_bytes out) findstr \<longrightarrow> parse_job_id out = slice (str_bytes out) 19 (- 3))"
proof
  show "launch (ext\<lparr>run_shell := \<lambda>command v. (out, rc, snd (snd (run_shell ext command v)))\<rparr>)
           self run_num sims params now w = (Inr (run\<lparr>run_id := parse_job_id out\<rparr>), w')"
    using assms by (auto simp: launch_def Let_def split: sum.splits prod.splits)
  show "\<not> contains (str_bytes out) findstr \<longrightarrow> parse_job_id out = slice (str_bytes out) 19 (- 3)"
    by (simp add: parse_job_id_def Let_def find_str_not_contains findstr_def)
qed

theorem launch_ignores_submission_outcome_witness:
  "\<exists>run w'.
     launch (example_externals (''Submitted batch job 12345'' @ [CHR 0x0A]) 0) example_solps 3
       (Abs [''sim'']) example_parameters 1000 plain_world = (Inr run, w') \<and>
     launch ((example_externals (''Submitted batch job 12345'' @ [CHR 0x0A]) 0)
               \<lparr>run_shell := \<lambda>command v. ([], 1,
                    snd (snd (run_shell (example_externals (''Submitted batch job 12345'' @ [CHR 0x0A]) 0)
                                command v)))\<rparr>)
       example_solps 3 (Abs [''sim'']) example_parameters 1000 plain_world
       = (Inr (run\<lparr>run_id := []\<rparr>), w') \<and>
     \<not> contains (str_bytes []) findstr \<and>
     parse_job_id [] = slice (str_bytes []) 19 (- 3)"
proof -
  let ?ext = "example_externals (''Submitted batch job 12345'' @ [CHR 0x0A]) 0"
  from example_launch_returns [of "''Submitted batch job 12345'' @ [CHR 0x0A]" 0]
  obtain run w' where
    L: "launch ?ext example_solps 3 (Abs [''sim'']) example_parameters 1000 plain_world = (Inr run, w')"
    by blast
  have n: "\<not> contains (str_bytes []) findstr"
    by (simp add: str_bytes_def bytes_quote_def findstr_def Let_def)
  from launch_ignores_submission_outcome [OF L, of "[]" 1] n L show ?thesis
    by (auto simp: parse_job_id_empty)
qed

text \<open>
  A submission that exits with status 1 and prints nothing: \<open>launch\<close> returns a handle
  whose \<open>run_id\<close> is the empty string.
\<close>

theorem launch_failed_submission_counterexample:
  "\<not> contains ([] :: string) findstr \<and>
   (\<exists>run w'. launch (example_externals [] 1) example_solps 3 (Abs [''sim'']) example_parameters 1000
                plain_world = (Inr run, w')
            \<and> run_id run = [])"
  using example_launch_returns [of "[]" 1]
  by (auto simp: parse_job_id_empty findstr_def)

subsection \<open>The working directory\<close>

lemma launch_split:
  "launch ext self run_num sims params now w =
     (case launch_prepare ext self run_num sims params w of
        (Inl e, w2) \<Rightarrow> (Inl e, w2)
      | (Inr u, w3) \<Rightarrow>
          (case chdir (w3\<lparr>files := snd (snd (run_shell ext (submit_command self) w3))\<rparr>) sims of
             Inl e \<Rightarrow> (Inl e, w3\<lparr>files := snd (snd (run_shell ext (submit_command self) w3))\<rparr>)
           | Inr w5 \<Rightarrow>
               (Inr \<lparr>parameters = params, run_number = run_num,
                      directory = joinpath sims (''run_'' @ str_int run_num),
                      launch_time = now,
                      run_id = parse_job_id (fst (run_shell ext (submit_command self) w3)),
                      timeout_hours = timeout_hours_cfg self\<rparr>, w5)))"
  by (simp add: launch_def launch_prepare_def Let_def split: sum.splits prod.splits)

lemma launch_prepare_cwd:
  assumes "launch_prepare ext self run_num sims params w = (r, w2)"
  shows "case r of
           Inl e \<Rightarrow> cwd w2 = cwd w
         | Inr u \<Rightarrow> cwd w2 = resolve (cwd w) (joinpath sims (''run_'' @ str_int run_num))"
proof -
  let ?cd = "joinpath sims (''run_'' @ str_int run_num)"
  obtain rb w1 where b: "build_solps_case (required_parameters ext) (reference_directory self) ?cd params w = (rb, w1)"
    by (cases "build_solps_case (required_parameters ext) (reference_directory self) ?cd params w")
  note c1 = build_cwd [OF b]
  show ?thesis
    using assms b c1
    by (auto simp: launch_prepare_def Let_def dest: chdir_Inr split: sum.splits prod.splits)
qed

lemmas prepare_example_defs = launch_prepare_def example_externals_def example_solps_def
  example_parameters_def build_solps_case_def fsdefs chdir_def str_int_3 Let_def

text \<open>
  Claim C4, as the code has it. \<open>launch\<close> does not put the working directory back. A
  call that fails in its first part, up to and including the first \<open>chdir\<close> (building
  the case, the profiles, the transport file, entering the case directory), raises
  that error and leaves the working directory at its value before the call. A call
  whose second \<open>chdir\<close> fails raises that error and leaves the working directory in the
  case directory. In every other case the call returns a handle and leaves the working
  directory at \<open>simulations_directory\<close>, read from inside the case directory (the path
  itself when it is absolute).
\<close>

theorem launch_working_directory:
  assumes "launch ext self run_num sims params now w = (r, w')"
  shows "case launch_prepare ext self run_num sims params w of
           (Inl e, w2) \<Rightarrow> r = Inl e \<and> cwd w' = cwd w
         | (Inr u, w3) \<Rightarrow>
             (case chdir (w3\<lparr>files := snd (snd (run_shell ext (submit_command self) w3))\<rparr>) sims of
                Inl e \<Rightarrow>
                  r = Inl e \<and>
                  cwd w' = resolve (cwd w) (joinpath sims (''run_'' @ str_int run_num))
              | Inr w5 \<Rightarrow>
                  (\<exists>run. r = Inr run) \<and>
                  cwd w' = resolve (resolve (cwd w) (joinpath sims (''run_'' @ str_int run_num))) sims)"
proof -
  obtain rp wp where p: "launch_prepare ext self run_num sims params w = (rp, wp)"
    by (cases "launch_prepare ext self run_num sims params w")
  note c = launch_prepare_cwd [OF p]
  show ?thesis
  proof (cases rp)
    case (Inl e)
    with assms p c show ?thesis by (simp add: launch_split)
  next
    case (Inr u)
    with c have cw: "cwd wp = resolve (cwd w) (joinpath sims (''run_'' @ str_int run_num))" by simp
    let ?w4 = "wp\<lparr>files := snd (snd (run_shell ext (submit_command self) wp))\<rparr>"
    show ?thesis
    proof (cases "chdir ?w4 sims")
      case e: (Inl e)
      with assms p Inr cw show ?thesis by (auto simp: launch_split)
    next
      case ok: (Inr w5)
      from chdir_Inr [OF ok] cw have "cwd w5 = resolve (resolve (cwd w) (joinpath sims (''run_'' @ str_int run_num))) sims"
        by simp
      with assms p Inr ok show ?thesis by (auto simp: launch_split)
    qed
  qed
qed

theorem launch_working_directory_witness:
  "(\<exists>run. fst (launch (example_externals [] 0) example_solps 3 (Abs [''sim'']) example_parameters 1000
              plain_world) = Inr run) \<and>
   cwd (snd (launch (example_externals [] 0) example_solps 3 (Abs [''sim'']) example_parameters 1000
              plain_world)) = [''sim''] \<and>
   fst (launch (example_externals [] 0) example_solps 3 (Abs [''sim'']) example_parameters 1000
          finished_world) = Inl FileExistsError \<and>
   cwd (snd (launch (example_externals [] 0) example_solps 3 (Abs [''sim'']) example_parameters 1000
          finished_world)) = [''home''] \<and>
   fst (launch (example_externals [] 0) example_solps 3 (Rel [''sim'']) example_parameters 1000
          relative_world) = Inl FileNotFoundError \<and>
   cwd (snd (launch (example_externals [] 0) example_solps 3 (Rel [''sim'']) example_parameters 1000
          relative_world)) = [''home'', ''sim'', ''run_3'']"
proof -
  let ?L1 = "launch (example_externals [] 0) example_solps 3 (Abs [''sim'']) example_parameters 1000 plain_world"
  let ?L2 = "launch (example_externals [] 0) example_solps 3 (Abs [''sim'']) example_parameters 1000 finished_world"
  let ?L3 = "launch (example_externals [] 0) example_solps 3 (Rel [''sim'']) example_parameters 1000 relative_world"
  have "?L1 = (fst ?L1, snd ?L1)" by simp
  from launch_working_directory [OF this]
  have 1: "(\<exists>run. fst ?L1 = Inr run) \<and> cwd (snd ?L1) = [''sim'']"
    by (simp add: prepare_example_defs plain_world_def)
  have "?L2 = (fst ?L2, snd ?L2)" by simp
  from launch_working_directory [OF this]
  have 2: "fst ?L2 = Inl FileExistsError \<and> cwd (snd ?L2) = [''home'']"
    by (simp add: prepare_example_defs finished_world_def)
  have "?L3 = (fst ?L3, snd ?L3)" by simp
  from launch_working_directory [OF this]
  have 3: "fst ?L3 = Inl FileNotFoundError \<and> cwd (snd ?L3) = [''home'', ''sim'', ''run_3'']"
    by (simp add: prepare_example_defs relative_world_def)
  from 1 2 3 show ?thesis by blast
qed

text \<open>
  Started in \<open>/home\<close> with \<open>simulations_directory = /sim\<close>, a successful call ends in
  \<open>/sim\<close>.
\<close>

theorem launch_changes_working_directory_counterexample:
  "cwd plain_world = [''home''] \<and>
   (\<exists>run w'. launch (example_externals (''Submitted batch job 12345'' @ [CHR 0x0A]) 0) example_solps 3
                (Abs [''sim'']) example_parameters 1000 plain_world = (Inr run, w')
            \<and> cwd w' = [''sim''])"
  using example_launch_returns [of "''Submitted batch job 12345'' @ [CHR 0x0A]" 0]
  by (auto simp: plain_world_def)

end
